theory Spec2Isabelle
  imports Complex_Main "HOL-Library.Word"
begin

unbundle bit_operations_syntax

section \<open>The variable store: integer coercion\<close>

text \<open>
  The store is the singly linked list of \<^verbatim>\<open>KVPair\<close> nodes rooted at \<^verbatim>\<open>lookup\<close>: an
  association list in list order. A C string is modelled by the characters before its
  terminating NUL; a \<^verbatim>\<open>val\<close> pointer may be NULL (\<open>None\<close>).
\<close>

type_synonym KVPair = "string \<times> string option"

text \<open>\<^verbatim>\<open>kvStrEq\<close>: 1 when the two strings agree at every position up to both terminators,
  -1 at the first position where they differ.\<close>

fun kvStrEq :: "string \<Rightarrow> string \<Rightarrow> int" where
  "kvStrEq [] [] = 1"
| "kvStrEq (a # as) [] = -1"
| "kvStrEq [] (b # bs) = -1"
| "kvStrEq (a # as) (b # bs) = (if a \<noteq> b then -1 else kvStrEq as bs)"

fun store_get_string :: "KVPair list \<Rightarrow> string \<Rightarrow> string option" where
  "store_get_string [] var = None"
| "store_get_string ((key, val) # rest) var =
     (if kvStrEq key var > 0 then val else store_get_string rest var)"

text \<open>A \<^verbatim>\<open>char\<close> read as the signed 8-bit value the comparisons of the source see.\<close>

definition schar :: "char \<Rightarrow> int" where
  "schar ch = sint (of_char ch :: 8 word)"

text \<open>The \<^verbatim>\<open>for\<close> loop of \<^verbatim>\<open>store_get_int\<close> over the characters from position \<open>c\<close> on;
  \<^verbatim>\<open>build\<close> is a 32-bit \<^verbatim>\<open>int\<close>. \<open>None\<close> is the early \<^verbatim>\<open>return -1\<close>.\<close>

fun get_int_loop :: "string \<Rightarrow> 32 word \<Rightarrow> 32 word option" where
  "get_int_loop [] build = Some build"
| "get_int_loop (ch # rest) build =
     (if schar ch < schar CHR ''0'' \<or> schar ch > schar CHR ''9'' then None
      else get_int_loop rest (build * 10 + word_of_int (schar ch - schar CHR ''0'')))"

text \<open>\<^verbatim>\<open>store_get_int(var, valp)\<close>: the result is the return code and the content of
  \<^verbatim>\<open>*valp\<close> afterwards (a 64-bit \<^verbatim>\<open>long\<close>; the third argument is its content before).\<close>

definition store_get_int :: "KVPair list \<Rightarrow> string \<Rightarrow> 64 word \<Rightarrow> int \<times> 64 word" where
  "store_get_int lookup var valp =
     (case store_get_string lookup var of
        None \<Rightarrow> (-1, valp)
      | Some val \<Rightarrow>
          (let (mult, digits) =
                 (case val of
                    [] \<Rightarrow> (1 :: 32 word, val)
                  | c0 # tl0 \<Rightarrow> if c0 = CHR ''-'' then (-1, tl0) else (1, val))
           in case get_int_loop digits 0 of
                None \<Rightarrow> (-1, valp)
              | Some build \<Rightarrow> (0, scast (build * mult))))"

text \<open>What the spec's sentence asks for: an optional leading minus sign, then at least one
  decimal digit.\<close>

definition is_digit :: "char \<Rightarrow> bool" where
  "is_digit ch = ((48 :: nat) \<le> of_char ch \<and> (of_char ch :: nat) \<le> 57)"

definition spec_integer_syntax :: "string \<Rightarrow> bool" where
  "spec_integer_syntax val =
     (case val of
        [] \<Rightarrow> False
      | c0 # tl0 \<Rightarrow>
          if c0 = CHR ''-'' then tl0 \<noteq> [] \<and> list_all is_digit tl0
          else list_all is_digit val)"

section \<open>The job runner\<close>

datatype JOB_STATUS = NEW | RUNNING | COMPLETED | ABORTED | CANCELED

text \<open>The fields of a \<^verbatim>\<open>PIPELINE\<close> that the jobs module reads. A command is its argument
  list.\<close>

record PIPELINE =
  commands :: "string list list"
  capture_output :: int
  input_file :: "string option"
  output_file :: "string option"

record Job =
  jobId :: int
  pgId :: int
  status :: JOB_STATUS
  pipeline :: PIPELINE
  capturedOutput :: "string option"
  canceled :: int

text \<open>Calls that hand memory back: \<^verbatim>\<open>free_pipeline\<close>, \<^verbatim>\<open>free\<close> of a captured-output
  buffer, \<^verbatim>\<open>free\<close> of a \<^verbatim>\<open>Job\<close> node (named by its job id).\<close>

datatype released = FreePipeline PIPELINE | FreeOutput "string option" | FreeJob int

text \<open>A pointer that is not the address of a node of the table: NULL, or an indeterminate
  value that is not NULL. \<^verbatim>\<open>jobs_run\<close> never assigns the \<^verbatim>\<open>next\<close> field of the node it
  allocates, so the pointer that follows the last node is whatever \<^verbatim>\<open>malloc\<close> left in that
  field. Reading a field through a \<open>WildPtr\<close> is undefined behaviour; the operations below
  then have the result \<open>None\<close>.\<close>

datatype end_ptr = NullPtr | WildPtr

text \<open>The state of the module as its caller's process sees it: the nodes of the linked list
  \<^verbatim>\<open>jobTable\<close> in list order; \<open>list_end\<close>, the pointer that follows the last node (the
  \<^verbatim>\<open>next\<close> field of the last node, or \<^verbatim>\<open>jobTable\<close> itself while the list has no node); the
  log of memory released so far and the log of \<^verbatim>\<open>killpg(pgid, sig)\<close> calls.\<close>

record jobs_world =
  jobTable :: "Job list"
  list_end :: end_ptr
  freed :: "released list"
  killed :: "(int \<times> int) list"

definition SIGKILL :: int where
  "SIGKILL = 9"

text \<open>What the operating system and the C library answer during one \<^verbatim>\<open>jobs_run\<close>: the
  return value of \<^verbatim>\<open>pipe\<close>, the return value of \<^verbatim>\<open>fork\<close> (-1 on failure, 0 in the child,
  the child's pid in the parent), the bytes available on the capture pipe, and what the
  memory returned by \<^verbatim>\<open>malloc(sizeof(Job))\<close> holds in the \<^verbatim>\<open>next\<close> field.\<close>

record os_answers =
  pipe_ret :: int
  fork_ret :: int
  pipe_data :: string
  malloc_next :: end_ptr

text \<open>The loop of \<^verbatim>\<open>jobs_run\<close> that chooses the job id,
  \<^verbatim>\<open>for (; current != NULL && current->next != NULL; current = current->next)\<close>: it advances
  while the current node has a successor, recording the id of the node it leaves. On the
  last node it reads \<open>list_end\<close>; when that is not NULL the loop moves on to it and reads
  \<^verbatim>\<open>current->next\<close> through it.\<close>

fun lastJID_loop :: "Job list \<Rightarrow> end_ptr \<Rightarrow> int \<Rightarrow> int option" where
  "lastJID_loop [] e lastJID = (case e of NullPtr \<Rightarrow> Some lastJID | WildPtr \<Rightarrow> None)"
| "lastJID_loop [cur] e lastJID = (case e of NullPtr \<Rightarrow> Some lastJID | WildPtr \<Rightarrow> None)"
| "lastJID_loop (cur # nxt # rest) e lastJID = lastJID_loop (nxt # rest) e (jobId cur)"

datatype run_result = Returns int | LeaderProcess

text \<open>\<^verbatim>\<open>jobs_run\<close>. In the child (\<open>fork_ret = 0\<close>) the call becomes the pipeline leader, which
  exits or aborts and never returns to the caller. Every other value of \<open>fork_ret\<close> takes
  the parent branch \<^verbatim>\<open>if (pid != 0)\<close>: the new node is linked behind the last one (or becomes
  \<^verbatim>\<open>jobTable\<close>) and its own \<^verbatim>\<open>next\<close> field, now the end of the list, stays as \<^verbatim>\<open>malloc\<close>
  returned it. The \<^verbatim>\<open>read\<close> on the capture pipe asks for \<^verbatim>\<open>sizeof(char*)\<close> = 8 bytes.\<close>

definition jobs_run :: "jobs_world \<Rightarrow> PIPELINE option \<Rightarrow> os_answers \<Rightarrow> (run_result \<times> jobs_world) option" where
  "jobs_run w pline os =
     (case pline of
        None \<Rightarrow> Some (Returns (-1), w)
      | Some pl \<Rightarrow>
          if commands pl = [] then Some (Returns (-1), w)
          else
            (case lastJID_loop (jobTable w) (list_end w) (-2) of
               None \<Rightarrow> None
             | Some lastJID \<Rightarrow>
                 let newId = lastJID + 2 in
                 if capture_output pl \<noteq> 0 \<and> pipe_ret os = -1 then Some (Returns (-1), w)
                 else if fork_ret os \<noteq> 0 then
                   Some (Returns newId,
                     w\<lparr>jobTable := jobTable w @
                          [\<lparr>jobId = newId, pgId = fork_ret os, status = RUNNING, pipeline = pl,
                            capturedOutput =
                              (if capture_output pl \<noteq> 0 then Some (take 8 (pipe_data os))
                               else None),
                            canceled = 0\<rparr>],
                       list_end := malloc_next os\<rparr>)
                 else Some (LeaderProcess, w)))"

text \<open>The walk of the signal handlers \<^verbatim>\<open>sigchld\<close>, \<^verbatim>\<open>sigabrt\<close> and \<^verbatim>\<open>sigkill\<close>: the position
  of the first node whose \<^verbatim>\<open>pgId\<close> is the pid of the signal, \<open>Some None\<close> for NULL, \<open>None\<close>
  when the walk leaves the list through a \<open>WildPtr\<close>.\<close>

fun findJobByPgId :: "Job list \<Rightarrow> end_ptr \<Rightarrow> int \<Rightarrow> nat option option" where
  "findJobByPgId [] e pid = (case e of NullPtr \<Rightarrow> Some None | WildPtr \<Rightarrow> None)"
| "findJobByPgId (cur # rest) e pid =
     (if pgId cur = pid then Some (Some 0)
      else map_option (map_option Suc) (findJobByPgId rest e pid))"

text \<open>\<^verbatim>\<open>sigchld\<close>, the handler \<^verbatim>\<open>jobs_run\<close> installs for SIGCHLD, run for the child \<open>pid\<close>: a
  RUNNING job of that process group becomes COMPLETED.\<close>

definition sigchld :: "jobs_world \<Rightarrow> int \<Rightarrow> jobs_world option" where
  "sigchld w pid =
     (case findJobByPgId (jobTable w) (list_end w) pid of
        None \<Rightarrow> None
      | Some None \<Rightarrow> Some w
      | Some (Some i) \<Rightarrow>
          (let cur = jobTable w ! i
           in if status cur = RUNNING
              then Some (w\<lparr>jobTable := (jobTable w)[i := cur\<lparr>status := COMPLETED\<rparr>]\<rparr>)
              else Some w))"

text \<open>\<^verbatim>\<open>findJobById\<close>: the position of the first node with the given id (the pointer the
  source returns), \<open>Some None\<close> for NULL, \<open>None\<close> when the walk leaves the list through a
  \<open>WildPtr\<close>.\<close>

fun findJobById :: "Job list \<Rightarrow> end_ptr \<Rightarrow> int \<Rightarrow> nat option option" where
  "findJobById [] e jid = (case e of NullPtr \<Rightarrow> Some None | WildPtr \<Rightarrow> None)"
| "findJobById (cur # rest) e jid =
     (if jobId cur = jid then Some (Some 0)
      else map_option (map_option Suc) (findJobById rest e jid))"

definition jobs_poll :: "jobs_world \<Rightarrow> int \<Rightarrow> int option" where
  "jobs_poll w jid =
     (case findJobById (jobTable w) (list_end w) jid of
        None \<Rightarrow> None
      | Some None \<Rightarrow> Some (-1)
      | Some (Some i) \<Rightarrow>
          (let cur = jobTable w ! i
           in if status cur = ABORTED \<or> status cur = COMPLETED \<or> status cur = CANCELED
              then Some 0 else Some (-1)))"

text \<open>\<^verbatim>\<open>jobs_expunge\<close>: the walk with \<^verbatim>\<open>prev\<close> and \<^verbatim>\<open>current\<close>, then the unlinking
  \<^verbatim>\<open>prev->next = current->next\<close> (or \<^verbatim>\<open>jobTable = current->next\<close>), which hands the \<^verbatim>\<open>next\<close>
  field of an unlinked last node on to its predecessor, so \<open>list_end\<close> stays what it was. The
  result is the return code and the list afterwards.\<close>

fun expunge_walk :: "Job list \<Rightarrow> end_ptr \<Rightarrow> int \<Rightarrow> (int \<times> Job list) option" where
  "expunge_walk [] e jid = (case e of NullPtr \<Rightarrow> Some (-1, []) | WildPtr \<Rightarrow> None)"
| "expunge_walk (cur # rest) e jid =
     (if jobId cur = jid then
        (if status cur = NEW \<or> status cur = RUNNING then Some (-1, cur # rest)
         else Some (0, rest))
      else map_option (\<lambda>(r, rest'). (r, cur # rest')) (expunge_walk rest e jid))"

definition jobs_expunge :: "jobs_world \<Rightarrow> int \<Rightarrow> (int \<times> jobs_world) option" where
  "jobs_expunge w jid =
     map_option (\<lambda>(r, tbl). (r, w\<lparr>jobTable := tbl\<rparr>)) (expunge_walk (jobTable w) (list_end w) jid)"

text \<open>\<^verbatim>\<open>jobs_fini\<close> walks the table and releases, per job, the pipeline, the captured output
  and the node; after the last node it goes on to \<open>list_end\<close>. (It leaves \<^verbatim>\<open>jobTable\<close>
  pointing at the released nodes.)\<close>

definition jobs_fini :: "jobs_world \<Rightarrow> (int \<times> jobs_world) option" where
  "jobs_fini w =
     (case list_end w of
        WildPtr \<Rightarrow> None
      | NullPtr \<Rightarrow>
          Some (0, w\<lparr>freed := freed w @
                      concat (map (\<lambda>j. [FreePipeline (pipeline j), FreeOutput (capturedOutput j),
                                         FreeJob (jobId j)]) (jobTable w))\<rparr>))"

definition jobs_cancel :: "jobs_world \<Rightarrow> int \<Rightarrow> (int \<times> jobs_world) option" where
  "jobs_cancel w jid =
     (case findJobById (jobTable w) (list_end w) jid of
        None \<Rightarrow> None
      | Some None \<Rightarrow> Some (-1, w)
      | Some (Some i) \<Rightarrow>
          (let cur = jobTable w ! i
           in if (status cur \<noteq> NEW \<and> status cur \<noteq> RUNNING) \<or> canceled cur \<noteq> 0
              then Some (-1, w)
              else Some (0, w\<lparr>killed := killed w @ [(pgId cur, SIGKILL)],
                              jobTable := (jobTable w)[i := cur\<lparr>canceled := 1\<rparr>]\<rparr>)))"

definition jobs_get_output :: "jobs_world \<Rightarrow> int \<Rightarrow> string option option" where
  "jobs_get_output w jid =
     (case findJobById (jobTable w) (list_end w) jid of
        None \<Rightarrow> None
      | Some None \<Rightarrow> Some None
      | Some (Some i) \<Rightarrow>
          (let cur = jobTable w ! i
           in if status cur = NEW \<or> status cur = RUNNING then Some None
              else Some (capturedOutput cur)))"

text \<open>Concrete data for the evaluations below.\<close>

definition sleep_pipeline :: PIPELINE where
  "sleep_pipeline =
     \<lparr>commands = [[''sleep'', ''100'']], capture_output = 0, input_file = None,
      output_file = None\<rparr>"

text \<open>The module before the first \<^verbatim>\<open>jobs_run\<close>: \<^verbatim>\<open>jobTable\<close> is initialised to NULL.\<close>

definition no_jobs :: jobs_world where
  "no_jobs = \<lparr>jobTable = [], list_end = NullPtr, freed = [], killed = []\<rparr>"

definition a_job :: "int \<Rightarrow> int \<Rightarrow> JOB_STATUS \<Rightarrow> Job" where
  "a_job jid pid st =
     \<lparr>jobId = jid, pgId = pid, status = st, pipeline = sleep_pipeline,
      capturedOutput = None, canceled = 0\<rparr>"

text \<open>Two \<^verbatim>\<open>jobs_run\<close> calls on the empty table (the children get pids 100 and 101, and
  \<^verbatim>\<open>malloc\<close> returns zeroed memory), then the first child exits and SIGCHLD is handled.\<close>

definition two_runs_first_done :: "jobs_world option" where
  "two_runs_first_done =
     Option.bind
       (jobs_run no_jobs (Some sleep_pipeline)
          \<lparr>pipe_ret = 0, fork_ret = 100, pipe_data = [], malloc_next = NullPtr\<rparr>)
       (\<lambda>(r1, w1).
          Option.bind
            (jobs_run w1 (Some sleep_pipeline)
               \<lparr>pipe_ret = 0, fork_ret = 101, pipe_data = [], malloc_next = NullPtr\<rparr>)
            (\<lambda>(r2, w2). sigchld w2 100))"

section \<open>The heap engine\<close>

subsection \<open>Constants, memory and the state of the allocator\<close>

type_synonym addr = "64 word"
type_synonym sf_header = "64 word"
type_synonym sf_size_t = "32 word"

text \<open>
  The header \<^verbatim>\<open>sfmm.h\<close> and the page provider behind \<^verbatim>\<open>sf_mem_start\<close>,
  \<^verbatim>\<open>sf_mem_end\<close> and \<^verbatim>\<open>sf_mem_grow\<close> are not part of the sources. The constants they
  fix are parameters of the model: the \<^verbatim>\<open>MAGIC\<close> mask, the numbers of quick lists and free
  lists, the quick-list capacity, the page size, the address where the heap starts, the
  address past which it cannot grow, and the address of the array
  \<^verbatim>\<open>sf_free_list_heads\<close>.
\<close>

record sfmm_config =
  MAGIC :: "64 word"
  NUM_QUICK_LISTS :: nat
  QUICK_LIST_MAX :: int
  NUM_FREE_LISTS :: nat
  PAGE_SZ :: "64 word"
  heap_start :: addr
  heap_limit :: addr
  free_list_heads :: addr

text \<open>Modelled from the spec: the flag bits of a header, which \<^verbatim>\<open>sfmm.h\<close> defines. The spec
  puts \<^verbatim>\<open>THIS_BLOCK_ALLOCATED\<close> at bit 0, \<^verbatim>\<open>PREV_BLOCK_ALLOCATED\<close> at bit 1 and
  \<^verbatim>\<open>IN_QUICK_LIST\<close> at bit 2.\<close>

definition THIS_BLOCK_ALLOCATED :: "64 word" where
  "THIS_BLOCK_ALLOCATED = 1"

definition PREV_BLOCK_ALLOCATED :: "64 word" where
  "PREV_BLOCK_ALLOCATED = 2"

definition IN_QUICK_LIST :: "64 word" where
  "IN_QUICK_LIST = 4"

definition ROW_SIZE :: "64 word" where
  "ROW_SIZE = 8"

definition MIN_BLOCK_SIZE :: sf_size_t where
  "MIN_BLOCK_SIZE = 32"

definition BLOCK_ALIGN :: sf_size_t where
  "BLOCK_ALIGN = 16"

definition ENOMEM :: int where
  "ENOMEM = 12"

text \<open>
  Memory is read and written in 8-byte rows (every access of the allocator is to a field of
  an \<^verbatim>\<open>sf_block\<close> at a 16-byte aligned address); it covers the heap and the array of
  free-list heads alike. The quick lists are the array \<^verbatim>\<open>sf_quick_lists\<close> of
  \<^verbatim>\<open>{length, first}\<close>. \<^verbatim>\<open>maxAggPayload\<close> is a \<^verbatim>\<open>double\<close> that only ever holds sums of
  32-bit payload sizes, which a \<^verbatim>\<open>double\<close> holds exactly below \<open>2^53\<close>; it is modelled
  as a real number.
\<close>

record sfmm_state =
  mem :: "addr \<Rightarrow> 64 word"
  ql_length :: "nat \<Rightarrow> int"
  ql_first :: "nat \<Rightarrow> addr"
  mem_end :: addr
  maxAggPayload :: real
  sf_errno :: int

text \<open>The fields of the \<^verbatim>\<open>sf_block\<close> at address \<open>b\<close>: \<^verbatim>\<open>prev_footer\<close> at \<open>b\<close>,
  \<^verbatim>\<open>header\<close> at \<open>b + 8\<close>, \<^verbatim>\<open>body.links.next\<close> at \<open>b + 16\<close> and \<^verbatim>\<open>body.links.prev\<close>
  at \<open>b + 24\<close>.\<close>

definition prev_footer :: "sfmm_state \<Rightarrow> addr \<Rightarrow> sf_header" where
  "prev_footer s b = mem s b"

definition header :: "sfmm_state \<Rightarrow> addr \<Rightarrow> sf_header" where
  "header s b = mem s (b + 8)"

definition links_next :: "sfmm_state \<Rightarrow> addr \<Rightarrow> addr" where
  "links_next s b = mem s (b + 16)"

definition links_prev :: "sfmm_state \<Rightarrow> addr \<Rightarrow> addr" where
  "links_prev s b = mem s (b + 24)"

definition set_prev_footer :: "sfmm_state \<Rightarrow> addr \<Rightarrow> sf_header \<Rightarrow> sfmm_state" where
  "set_prev_footer s b v = s\<lparr>mem := (mem s)(b := v)\<rparr>"

definition set_header :: "sfmm_state \<Rightarrow> addr \<Rightarrow> sf_header \<Rightarrow> sfmm_state" where
  "set_header s b v = s\<lparr>mem := (mem s)(b + 8 := v)\<rparr>"

definition set_links_next :: "sfmm_state \<Rightarrow> addr \<Rightarrow> addr \<Rightarrow> sfmm_state" where
  "set_links_next s b v = s\<lparr>mem := (mem s)(b + 16 := v)\<rparr>"

definition set_links_prev :: "sfmm_state \<Rightarrow> addr \<Rightarrow> addr \<Rightarrow> sfmm_state" where
  "set_links_prev s b v = s\<lparr>mem := (mem s)(b + 24 := v)\<rparr>"

text \<open>Modelled from the spec: \<^verbatim>\<open>sf_mem_grow\<close>, which appends one page to the heap and
  returns its start address, or returns NULL when no memory is left. \<^verbatim>\<open>sf_mem_start\<close> is
  \<open>heap_start\<close>, \<^verbatim>\<open>sf_mem_end\<close> is the field \<open>mem_end\<close>; the heap is empty while the two are
  equal.\<close>

definition sf_mem_grow :: "sfmm_config \<Rightarrow> sfmm_state \<Rightarrow> addr \<times> sfmm_state" where
  "sf_mem_grow cfg s =
     (if unat (mem_end s) + unat (PAGE_SZ cfg) > unat (heap_limit cfg) then (0, s)
      else (mem_end s, s\<lparr>mem_end := mem_end s + PAGE_SZ cfg\<rparr>))"

subsection \<open>The macros\<close>

definition GET_SIZE :: "sfmm_config \<Rightarrow> sf_header \<Rightarrow> sf_size_t" where
  "GET_SIZE cfg h = ucast (push_bit 4 (drop_bit 36 (push_bit 32 (h XOR MAGIC cfg))))"

definition GET_B_SIZE :: "sfmm_config \<Rightarrow> sfmm_state \<Rightarrow> addr \<Rightarrow> sf_size_t" where
  "GET_B_SIZE cfg s b = GET_SIZE cfg (header s b)"

definition GET_PREV_ALLOCD :: "sfmm_config \<Rightarrow> sfmm_state \<Rightarrow> addr \<Rightarrow> 64 word" where
  "GET_PREV_ALLOCD cfg s b = (header s b XOR MAGIC cfg) AND PREV_BLOCK_ALLOCATED"

definition IS_ALLOCD :: "sfmm_config \<Rightarrow> sfmm_state \<Rightarrow> addr \<Rightarrow> bool" where
  "IS_ALLOCD cfg s b = ((header s b XOR MAGIC cfg) AND THIS_BLOCK_ALLOCATED > 0)"

definition NEXT_BLOCK_S :: "addr \<Rightarrow> sf_size_t \<Rightarrow> addr" where
  "NEXT_BLOCK_S b sz = b + ucast sz"

definition NEXT_BLOCK :: "sfmm_config \<Rightarrow> sfmm_state \<Rightarrow> addr \<Rightarrow> addr" where
  "NEXT_BLOCK cfg s b = NEXT_BLOCK_S b (GET_SIZE cfg (header s b))"

definition PREV_BLOCK_S :: "addr \<Rightarrow> sf_size_t \<Rightarrow> addr" where
  "PREV_BLOCK_S b sz = b - ucast sz"

definition PREV_BLOCK :: "sfmm_config \<Rightarrow> sfmm_state \<Rightarrow> addr \<Rightarrow> addr" where
  "PREV_BLOCK cfg s b = PREV_BLOCK_S b (GET_SIZE cfg (prev_footer s b))"

text \<open>The payload size a header carries: \<^verbatim>\<open>(sf_size_t)((header ^ MAGIC) >> 32)\<close>.\<close>

definition payload_of :: "sfmm_config \<Rightarrow> sf_header \<Rightarrow> sf_size_t" where
  "payload_of cfg h = ucast (drop_bit 32 (h XOR MAGIC cfg))"

subsection \<open>Free lists\<close>

text \<open>The loop of \<^verbatim>\<open>bytesToFreeListIndex\<close>; the first argument is \<^verbatim>\<open>NUM_FREE_LISTS\<close>.\<close>

function bytesToFreeListIndex_loop :: "nat \<Rightarrow> sf_size_t \<Rightarrow> sf_size_t \<Rightarrow> nat \<Rightarrow> nat" where
  "bytesToFreeListIndex_loop n sz binMax index =
     (if sz > binMax \<and> index < n - 1
      then bytesToFreeListIndex_loop n sz (push_bit 1 binMax) (index + 1)
      else index)"
  by pat_completeness auto
termination
  by (relation "measure (\<lambda>(n, sz, binMax, index). n - 1 - index)") auto

declare bytesToFreeListIndex_loop.simps [simp del]

definition bytesToFreeListIndex :: "sfmm_config \<Rightarrow> sf_size_t \<Rightarrow> nat" where
  "bytesToFreeListIndex cfg sz = bytesToFreeListIndex_loop (NUM_FREE_LISTS cfg) sz MIN_BLOCK_SIZE 0"

text \<open>The address \<^verbatim>\<open>&sf_free_list_heads[c]\<close>; an \<^verbatim>\<open>sf_block\<close> is 32 bytes.\<close>

definition fl_head :: "sfmm_config \<Rightarrow> nat \<Rightarrow> addr" where
  "fl_head cfg c = free_list_heads cfg + 32 * of_nat c"

definition verifyFreeListLinks :: "sfmm_config \<Rightarrow> nat \<Rightarrow> sfmm_state \<Rightarrow> sfmm_state" where
  "verifyFreeListLinks cfg c s =
     (let s1 = (if links_next s (fl_head cfg c) = 0
                then set_links_next s (fl_head cfg c) (fl_head cfg c) else s)
      in if links_prev s1 (fl_head cfg c) = 0
         then set_links_prev s1 (fl_head cfg c) (fl_head cfg c) else s1)"

definition removeFromFreeList :: "sfmm_state \<Rightarrow> addr \<Rightarrow> sfmm_state" where
  "removeFromFreeList s block =
     (if links_prev s block = 0 \<or> links_next s block = 0 then s
      else
        let s1 = set_links_next s (links_prev s block) (links_next s block);
            s2 = set_links_prev s1 (links_next s1 block) (links_prev s1 block);
            s3 = set_links_prev s2 block 0
        in set_links_next s3 block 0)"

definition insertIntoFreeList :: "sfmm_config \<Rightarrow> sfmm_state \<Rightarrow> addr \<Rightarrow> sfmm_state" where
  "insertIntoFreeList cfg s block =
     (if links_prev s block \<noteq> 0 \<or> links_next s block \<noteq> 0 then s
      else
        let blockSize = GET_SIZE cfg (header s block);
            c = bytesToFreeListIndex cfg blockSize;
            s1 = verifyFreeListLinks cfg c s;
            s2 = set_links_prev s1 block (fl_head cfg c);
            s3 = set_links_next s2 block (links_next s2 (fl_head cfg c));
            s4 = set_links_prev s3 (links_next s3 (fl_head cfg c)) block
        in set_links_next s4 (fl_head cfg c) block)"

subsection \<open>Coalescing\<close>

text \<open>\<^verbatim>\<open>coalesce\<close> returns the surviving block (NULL when the block is allocated) and the
  state.\<close>

definition coalesce :: "sfmm_config \<Rightarrow> sfmm_state \<Rightarrow> addr \<Rightarrow> addr \<times> sfmm_state" where
  "coalesce cfg s block =
     (if IS_ALLOCD cfg s block then (0, s)
      else
        let s1 = removeFromFreeList s block;
            prevBlock = PREV_BLOCK cfg s1 block;
            nextBlock = NEXT_BLOCK cfg s1 block;
            prevAllocd = IS_ALLOCD cfg s1 prevBlock;
            nextAllocd = IS_ALLOCD cfg s1 nextBlock;
            s2 = (if \<not> prevAllocd then removeFromFreeList s1 prevBlock else s1);
            s3 = (if \<not> nextAllocd then removeFromFreeList s2 nextBlock else s2)
        in
          if prevAllocd \<and> nextAllocd then (block, insertIntoFreeList cfg s3 block)
          else if prevAllocd \<and> \<not> nextAllocd then
            let s4 = set_header s3 block
                       ((ucast (GET_B_SIZE cfg s3 block + GET_B_SIZE cfg s3 nextBlock)
                           OR GET_PREV_ALLOCD cfg s3 block) XOR MAGIC cfg);
                s5 = set_prev_footer s4 (NEXT_BLOCK cfg s4 block) (header s4 block)
            in (block, insertIntoFreeList cfg s5 block)
          else if \<not> prevAllocd \<and> nextAllocd then
            let s4 = set_header s3 prevBlock
                       ((ucast (GET_B_SIZE cfg s3 prevBlock + GET_B_SIZE cfg s3 block)
                           OR GET_PREV_ALLOCD cfg s3 prevBlock) XOR MAGIC cfg);
                s5 = set_prev_footer s4 nextBlock (header s4 prevBlock)
            in (prevBlock, insertIntoFreeList cfg s5 prevBlock)
          else
            let s4 = set_header s3 prevBlock
                       ((ucast (GET_B_SIZE cfg s3 prevBlock + GET_B_SIZE cfg s3 block
                                  + GET_B_SIZE cfg s3 nextBlock)
                           OR GET_PREV_ALLOCD cfg s3 prevBlock) XOR MAGIC cfg);
                s5 = set_prev_footer s4 (NEXT_BLOCK cfg s4 prevBlock) (header s4 prevBlock)
            in (prevBlock, insertIntoFreeList cfg s5 prevBlock))"

subsection \<open>Quick lists\<close>

text \<open>The flush loop of \<^verbatim>\<open>insertIntoQuickList\<close>: one iteration per counted entry, following
  the \<^verbatim>\<open>next\<close> link read before the block is coalesced.\<close>

fun flush_loop :: "sfmm_config \<Rightarrow> nat \<Rightarrow> sf_size_t \<Rightarrow> sfmm_state \<Rightarrow> addr \<Rightarrow> sfmm_state" where
  "flush_loop cfg 0 blockSize s current = s"
| "flush_loop cfg (Suc n) blockSize s current =
     (let s1 = set_header s current
                 ((ucast blockSize OR GET_PREV_ALLOCD cfg s current) XOR MAGIC cfg);
          s2 = set_prev_footer s1 (NEXT_BLOCK_S current blockSize) (header s1 current);
          nxt = links_next s2 current;
          s3 = snd (coalesce cfg s2 current)
      in flush_loop cfg n blockSize s3 nxt)"

definition insertIntoQuickList :: "sfmm_config \<Rightarrow> sfmm_state \<Rightarrow> addr \<Rightarrow> sf_size_t \<Rightarrow> nat \<Rightarrow> sfmm_state" where
  "insertIntoQuickList cfg s block blockSize quickListI =
     (let s1 = set_header s block
                 ((ucast blockSize OR THIS_BLOCK_ALLOCATED OR GET_PREV_ALLOCD cfg s block
                     OR IN_QUICK_LIST) XOR MAGIC cfg);
          s2 = set_prev_footer s1 (NEXT_BLOCK_S block blockSize) (header s1 block)
      in
        if ql_length s2 quickListI \<le> QUICK_LIST_MAX cfg then
          let oldFirst = ql_first s2 quickListI;
              s3 = s2\<lparr>ql_first := (ql_first s2)(quickListI := block)\<rparr>
          in
            if oldFirst \<noteq> 0 then
              let s4 = set_links_next s3 block oldFirst;
                  s5 = set_links_prev s4 oldFirst block
              in s5\<lparr>ql_length := (ql_length s5)(quickListI := ql_length s5 quickListI + 1)\<rparr>
            else s3\<lparr>ql_length := (ql_length s3)(quickListI := 1)\<rparr>
        else
          let s3 = flush_loop cfg (nat (ql_length s2 quickListI)) blockSize s2
                     (ql_first s2 quickListI);
              s4 = s3\<lparr>ql_first := (ql_first s3)(quickListI := block)\<rparr>
          in s4\<lparr>ql_length := (ql_length s4)(quickListI := 1)\<rparr>)"

definition getQuickListBlock :: "sfmm_config \<Rightarrow> sfmm_state \<Rightarrow> sf_size_t \<Rightarrow> addr \<times> sfmm_state" where
  "getQuickListBlock cfg s sz =
     (let index = unat ((sz - MIN_BLOCK_SIZE) div BLOCK_ALIGN)
      in if index \<ge> NUM_QUICK_LISTS cfg then (0, s)
         else if ql_length s index \<le> 0 then (0, s)
         else
           let toAllocate = ql_first s index
           in if toAllocate \<noteq> 0 then
                (toAllocate,
                 s\<lparr>ql_first := (ql_first s)(index := links_next s toAllocate),
                   ql_length := (ql_length s)(index := ql_length s index - 1)\<rparr>)
              else (toAllocate, s))"

text \<open>The inner \<^verbatim>\<open>while (current != start)\<close> loop of \<^verbatim>\<open>getFreeListBlock\<close>: it stops at
  the first block that is large enough, or back at the dummy head. \<open>None\<close> is a walk that
  never ends.\<close>

partial_function (option) fl_scan :: "sfmm_config \<Rightarrow> sfmm_state \<Rightarrow> addr \<Rightarrow> addr \<Rightarrow> sf_size_t \<Rightarrow> addr option" where
  "fl_scan cfg s start current sz =
     (if current \<noteq> start then
        (if GET_B_SIZE cfg s current < sz then fl_scan cfg s start (links_next s current) sz
         else Some current)
      else Some current)"

text \<open>The outer \<^verbatim>\<open>for\<close> loop of \<^verbatim>\<open>getFreeListBlock\<close>, from list \<open>freeListI\<close> on.\<close>

partial_function (option) getFreeListBlock_loop :: "sfmm_config \<Rightarrow> sfmm_state \<Rightarrow> sf_size_t \<Rightarrow> nat \<Rightarrow> (addr \<times> sfmm_state) option" where
  "getFreeListBlock_loop cfg s sz freeListI =
     (if freeListI < NUM_FREE_LISTS cfg then
        (let s1 = verifyFreeListLinks cfg freeListI s;
             start = fl_head cfg freeListI
         in Option.bind (fl_scan cfg s1 start (links_next s1 start) sz)
              (\<lambda>current.
                 if current \<noteq> start then Some (current, removeFromFreeList s1 current)
                 else getFreeListBlock_loop cfg s1 sz (freeListI + 1)))
      else Some (0, s))"

definition getFreeListBlock :: "sfmm_config \<Rightarrow> sfmm_state \<Rightarrow> sf_size_t \<Rightarrow> (addr \<times> sfmm_state) option" where
  "getFreeListBlock cfg s sz = getFreeListBlock_loop cfg s sz (bytesToFreeListIndex cfg sz)"

subsection \<open>Statistics\<close>

text \<open>The heap walk of \<^verbatim>\<open>updateMaxAggPayload\<close>: from \<open>currentBlock\<close> to the epilogue, adding
  the payload size of every block that is allocated and not in a quick list.\<close>

partial_function (option) aggPayload_loop :: "sfmm_config \<Rightarrow> sfmm_state \<Rightarrow> addr \<Rightarrow> addr \<Rightarrow> real \<Rightarrow> real option" where
  "aggPayload_loop cfg s currentBlock epilogue aggPayload =
     (if currentBlock < epilogue then
        aggPayload_loop cfg s (NEXT_BLOCK cfg s currentBlock) epilogue
          (if IS_ALLOCD cfg s currentBlock
              \<and> (header s currentBlock XOR MAGIC cfg) AND IN_QUICK_LIST = 0
           then aggPayload + real (unat (payload_of cfg (header s currentBlock)))
           else aggPayload)
      else Some aggPayload)"

definition aggPayload_now :: "sfmm_config \<Rightarrow> sfmm_state \<Rightarrow> real option" where
  "aggPayload_now cfg s =
     aggPayload_loop cfg s (heap_start cfg + 4 * ROW_SIZE) (mem_end s - 2 * ROW_SIZE) 0"

definition updateMaxAggPayload :: "sfmm_config \<Rightarrow> sfmm_state \<Rightarrow> sfmm_state option" where
  "updateMaxAggPayload cfg s =
     (if heap_start cfg = mem_end s then Some s
      else Option.bind (aggPayload_now cfg s)
             (\<lambda>aggPayload.
                Some (if aggPayload > maxAggPayload s then s\<lparr>maxAggPayload := aggPayload\<rparr>
                      else s)))"

subsection \<open>Growing and splitting\<close>

definition setPrevAllocd :: "sfmm_config \<Rightarrow> sfmm_state \<Rightarrow> addr \<Rightarrow> int \<Rightarrow> sfmm_state" where
  "setPrevAllocd cfg s block bitv =
     (let s1 = set_header s block ((header s block XOR MAGIC cfg) AND NOT PREV_BLOCK_ALLOCATED);
          s2 = (if bitv = 1 then set_header s1 block (header s1 block OR PREV_BLOCK_ALLOCATED)
                else s1);
          s3 = set_header s2 block (header s2 block XOR MAGIC cfg)
      in if \<not> IS_ALLOCD cfg s3 block
         then set_prev_footer s3 (NEXT_BLOCK cfg s3 block) (header s3 block)
         else s3)"

text \<open>\<^verbatim>\<open>initializeHeap\<close> and \<^verbatim>\<open>extendHeap\<close> return -1 or 1 and the state.\<close>

definition initializeHeap :: "sfmm_config \<Rightarrow> sfmm_state \<Rightarrow> int \<times> sfmm_state" where
  "initializeHeap cfg s =
     (case sf_mem_grow cfg s of
        (heapStart, s0) \<Rightarrow>
          if heapStart = 0 then (-1, s0)
          else
            let prologue = heapStart;
                s1 = set_header s0 prologue
                       ((ucast MIN_BLOCK_SIZE OR THIS_BLOCK_ALLOCATED) XOR MAGIC cfg);
                firstBlock = heapStart + 4 * ROW_SIZE;
                s2 = set_prev_footer s1 firstBlock (header s1 prologue);
                blockSize = (ucast (mem_end s2 - heapStart - 6 * ROW_SIZE) :: sf_size_t);
                s3 = set_header s2 firstBlock
                       ((ucast blockSize OR PREV_BLOCK_ALLOCATED) XOR MAGIC cfg);
                s4 = set_links_prev s3 firstBlock 0;
                s5 = set_links_next s4 firstBlock 0;
                s6 = insertIntoFreeList cfg s5 firstBlock;
                epilogue = mem_end s6 - 2 * ROW_SIZE;
                s7 = set_header s6 epilogue (THIS_BLOCK_ALLOCATED XOR MAGIC cfg)
            in (1, set_prev_footer s7 epilogue (header s7 firstBlock)))"

definition extendHeap :: "sfmm_config \<Rightarrow> sfmm_state \<Rightarrow> int \<times> sfmm_state" where
  "extendHeap cfg s =
     (let oldEpilogue = mem_end s - 2 * ROW_SIZE
      in case sf_mem_grow cfg s of
           (nextPageStart, s0) \<Rightarrow>
             if nextPageStart = 0 then (-1, s0)
             else
               let newEpilogue = mem_end s0 - 2 * ROW_SIZE;
                   s1 = set_header s0 newEpilogue (THIS_BLOCK_ALLOCATED XOR MAGIC cfg);
                   blockSize = (ucast (newEpilogue - oldEpilogue) :: sf_size_t);
                   s2 = set_header s1 oldEpilogue
                          ((ucast blockSize OR GET_PREV_ALLOCD cfg s1 oldEpilogue) XOR MAGIC cfg);
                   s3 = set_links_prev s2 oldEpilogue 0;
                   s4 = set_links_next s3 oldEpilogue 0;
                   s5 = set_prev_footer s4 newEpilogue (header s4 oldEpilogue)
               in case coalesce cfg s5 oldEpilogue of
                    (freeBlock, s6) \<Rightarrow>
                      (1, set_prev_footer s6 newEpilogue (header s6 freeBlock)))"

definition splitBlock :: "sfmm_config \<Rightarrow> sfmm_state \<Rightarrow> addr \<Rightarrow> sf_header \<Rightarrow> sf_size_t \<Rightarrow> sf_size_t \<Rightarrow> sfmm_state" where
  "splitBlock cfg s block payloadSize effectiveSize remainderSize =
     (let s1 = set_header s block
                 ((payloadSize OR ucast effectiveSize OR THIS_BLOCK_ALLOCATED
                     OR GET_PREV_ALLOCD cfg s block) XOR MAGIC cfg);
          s2 = removeFromFreeList s1 block;
          frag = NEXT_BLOCK_S block effectiveSize;
          s3 = set_header s2 frag ((ucast remainderSize OR PREV_BLOCK_ALLOCATED) XOR MAGIC cfg);
          s4 = set_prev_footer s3 frag (header s3 block);
          s5 = set_links_next s4 frag 0;
          s6 = set_links_prev s5 frag 0
      in case coalesce cfg s6 frag of
           (frag', s7) \<Rightarrow>
             set_prev_footer s7 (NEXT_BLOCK_S frag' remainderSize) (header s7 frag'))"

subsection \<open>The public operations\<close>

text \<open>The effective size of a request, computed in 32-bit unsigned arithmetic as
  \<^verbatim>\<open>sf_malloc\<close> and \<^verbatim>\<open>sf_realloc\<close> both do.\<close>

definition effective_size :: "sf_size_t \<Rightarrow> sf_size_t" where
  "effective_size sz =
     (let e0 = sz + 8;
          e1 = e0 + (BLOCK_ALIGN - (e0 mod BLOCK_ALIGN)) mod BLOCK_ALIGN
      in if e1 < MIN_BLOCK_SIZE then MIN_BLOCK_SIZE else e1)"

text \<open>The loop \<^verbatim>\<open>while (block == NULL)\<close> of \<^verbatim>\<open>sf_malloc\<close>. A NULL block in the result is
  the exit through \<^verbatim>\<open>sf_errno = ENOMEM\<close>.\<close>

partial_function (option) malloc_extend_loop :: "sfmm_config \<Rightarrow> sfmm_state \<Rightarrow> addr \<Rightarrow> sf_size_t \<Rightarrow> (addr \<times> sfmm_state) option" where
  "malloc_extend_loop cfg s block effectiveSize =
     (if block = 0 then
        (case extendHeap cfg s of
           (r, s1) \<Rightarrow>
             if r < 0 then Some (0, s1\<lparr>sf_errno := ENOMEM\<rparr>)
             else Option.bind (getFreeListBlock cfg s1 effectiveSize)
                    (\<lambda>(block', s2). malloc_extend_loop cfg s2 block' effectiveSize))
      else Some (block, s))"

text \<open>\<^verbatim>\<open>sf_malloc\<close> after the effective size is known: the quick-list path, then the
  free-list path with its split policy.\<close>

definition malloc_place :: "sfmm_config \<Rightarrow> sfmm_state \<Rightarrow> sf_size_t \<Rightarrow> sf_size_t \<Rightarrow> (addr \<times> sfmm_state) option" where
  "malloc_place cfg s sz effectiveSize =
     (let payloadSize = push_bit 32 (ucast sz :: sf_header)
      in case getQuickListBlock cfg s effectiveSize of
           (qblock, s1) \<Rightarrow>
             if qblock \<noteq> 0 then
               (let s2 = set_header s1 qblock
                           ((payloadSize OR ucast effectiveSize OR THIS_BLOCK_ALLOCATED
                               OR GET_PREV_ALLOCD cfg s1 qblock) XOR MAGIC cfg);
                    pastBlock = NEXT_BLOCK_S qblock effectiveSize;
                    s3 = set_prev_footer s2 pastBlock (header s2 qblock);
                    s4 = setPrevAllocd cfg s3 pastBlock 1
                in Option.bind (updateMaxAggPayload cfg s4) (\<lambda>s5. Some (qblock + 16, s5)))
             else
               Option.bind (getFreeListBlock cfg s1 effectiveSize)
                 (\<lambda>(fblock, s2).
                    Option.bind (malloc_extend_loop cfg s2 fblock effectiveSize)
                      (\<lambda>(block, s3).
                         if block = 0 then Some (0, s3)
                         else
                           let blockSize = GET_B_SIZE cfg s3 block;
                               remainderSize = blockSize - effectiveSize;
                               s4 = (if remainderSize \<ge> MIN_BLOCK_SIZE
                                     then splitBlock cfg s3 block payloadSize effectiveSize
                                            remainderSize
                                     else
                                       let t1 = set_header s3 block
                                                  ((payloadSize OR ucast blockSize
                                                      OR THIS_BLOCK_ALLOCATED
                                                      OR GET_PREV_ALLOCD cfg s3 block)
                                                     XOR MAGIC cfg);
                                           t2 = removeFromFreeList t1 block;
                                           pastBlock = NEXT_BLOCK_S block blockSize;
                                           t3 = set_prev_footer t2 pastBlock (header t2 block)
                                       in setPrevAllocd cfg t3 pastBlock 1)
                           in Option.bind (updateMaxAggPayload cfg s4)
                                (\<lambda>s5. Some (block + 16, s5)))))"

text \<open>\<^verbatim>\<open>sf_malloc\<close>: the returned pointer (0 for NULL) and the state; \<open>None\<close> when the call
  does not return.\<close>

definition sf_malloc :: "sfmm_config \<Rightarrow> sfmm_state \<Rightarrow> sf_size_t \<Rightarrow> (addr \<times> sfmm_state) option" where
  "sf_malloc cfg s sz =
     (if sz = 0 then Some (0, s)
      else
        let s1 = fold (verifyFreeListLinks cfg) [0 ..< NUM_FREE_LISTS cfg] s
        in case (if heap_start cfg = mem_end s1 then initializeHeap cfg s1 else (1, s1)) of
             (r, s2) \<Rightarrow>
               if r < 0 then Some (0, s2\<lparr>sf_errno := ENOMEM\<rparr>)
               else if effective_size sz < sz then Some (0, s2)
               else malloc_place cfg s2 sz (effective_size sz))"

datatype 'a outcome = Aborted | Ret 'a

text \<open>\<^verbatim>\<open>verifyPointer\<close>: \<^verbatim>\<open>abort()\<close>, or the block of the pointer (NULL on an empty heap).
  \<^verbatim>\<open>sizeof(sf_block)\<close> is 32.\<close>

definition verifyPointer :: "sfmm_config \<Rightarrow> sfmm_state \<Rightarrow> addr \<Rightarrow> addr outcome" where
  "verifyPointer cfg s pp =
     (if pp = 0 then Aborted
      else if pp mod 16 \<noteq> 0 then Aborted
      else if heap_start cfg = mem_end s then Ret 0
      else
        let heapStart = heap_start cfg + 4 * ROW_SIZE;
            block = pp - 16
        in if block < heapStart then Aborted
           else if block + 32 \<ge> mem_end s - 2 * ROW_SIZE then Aborted
           else if GET_B_SIZE cfg s block < MIN_BLOCK_SIZE then Aborted
           else if GET_B_SIZE cfg s block mod 16 \<noteq> 0 then Aborted
           else if \<not> IS_ALLOCD cfg s block then Aborted
           else if GET_PREV_ALLOCD cfg s block = 0 \<and> IS_ALLOCD cfg s (PREV_BLOCK cfg s block)
           then Aborted
           else Ret block)"

definition sf_free :: "sfmm_config \<Rightarrow> sfmm_state \<Rightarrow> addr \<Rightarrow> sfmm_state outcome" where
  "sf_free cfg s pp =
     (case verifyPointer cfg s pp of
        Aborted \<Rightarrow> Aborted
      | Ret block \<Rightarrow>
          if block = 0 then Aborted
          else
            let blockSize = GET_B_SIZE cfg s block;
                quickListI = unat ((blockSize - MIN_BLOCK_SIZE) div BLOCK_ALIGN)
            in if quickListI < NUM_QUICK_LISTS cfg
               then Ret (insertIntoQuickList cfg s block blockSize quickListI)
               else
                 let s1 = set_header s block
                            ((ucast blockSize OR GET_PREV_ALLOCD cfg s block) XOR MAGIC cfg);
                     s2 = set_links_next s1 block 0;
                     s3 = set_links_prev s2 block 0;
                     nextBlock = NEXT_BLOCK_S block blockSize;
                     s4 = set_prev_footer s3 nextBlock (header s3 block);
                     s5 = setPrevAllocd cfg s4 nextBlock 0
                 in case coalesce cfg s5 block of
                      (nextBlock', s6) \<Rightarrow>
                        Ret (set_prev_footer s6 nextBlock' (header s6 block)))"

text \<open>\<^verbatim>\<open>memcpy(dst, src, n)\<close> on a little-endian machine: whole rows, then the low
  \<open>n mod 8\<close> bytes of the last row. Source and destination do not overlap.\<close>

definition memcpy :: "sfmm_state \<Rightarrow> addr \<Rightarrow> addr \<Rightarrow> nat \<Rightarrow> sfmm_state" where
  "memcpy s dst src n =
     s\<lparr>mem := (\<lambda>a.
          let off = unat (a - dst)
          in if off mod 8 = 0 \<and> off + 8 \<le> n then mem s (src + (a - dst))
             else if off mod 8 = 0 \<and> off < n then
               (mem s (src + (a - dst)) AND mask (8 * (n - off)))
                 OR (mem s a AND NOT (mask (8 * (n - off))))
             else mem s a)\<rparr>"

text \<open>\<^verbatim>\<open>sf_realloc\<close>: \<open>None\<close> when the call does not return, \<open>Aborted\<close> on \<^verbatim>\<open>abort()\<close>.\<close>

definition sf_realloc :: "sfmm_config \<Rightarrow> sfmm_state \<Rightarrow> addr \<Rightarrow> sf_size_t \<Rightarrow> (addr \<times> sfmm_state) outcome option" where
  "sf_realloc cfg s pp rsize =
     (if rsize = 0 then
        (case sf_free cfg s pp of Aborted \<Rightarrow> Some Aborted | Ret s' \<Rightarrow> Some (Ret (0, s')))
      else
        case verifyPointer cfg s pp of
          Aborted \<Rightarrow> Some Aborted
        | Ret block \<Rightarrow>
            if block = 0 then Some (Ret (0, s))
            else
              let s1 = fold (verifyFreeListLinks cfg) [0 ..< NUM_FREE_LISTS cfg] s;
                  reffectiveSize = effective_size rsize
              in if reffectiveSize < rsize then Some (Ret (0, s1))
                 else
                   let blockSize = GET_B_SIZE cfg s1 block
                   in if reffectiveSize > blockSize then
                        Option.bind (sf_malloc cfg s1 rsize)
                          (\<lambda>(payloadDst, s2).
                             if payloadDst = 0 then Some (Ret (0, s2))
                             else
                               (case sf_free cfg (memcpy s2 payloadDst pp (unat rsize)) pp of
                                  Aborted \<Rightarrow> Some Aborted
                                | Ret s3 \<Rightarrow> Some (Ret (payloadDst, s3))))
                      else
                        let payloadSize = push_bit 32 (ucast rsize :: sf_header);
                            rewritten = set_header s1 block
                                          ((payloadSize OR ucast blockSize OR THIS_BLOCK_ALLOCATED
                                              OR GET_PREV_ALLOCD cfg s1 block) XOR MAGIC cfg)
                        in if reffectiveSize = blockSize then Some (Ret (pp, rewritten))
                           else if blockSize - reffectiveSize < MIN_BLOCK_SIZE
                           then Some (Ret (pp, rewritten))
                           else Some (Ret (pp, splitBlock cfg s1 block payloadSize reffectiveSize
                                                 (blockSize - reffectiveSize))))"

definition sf_peak_utilization :: "sfmm_config \<Rightarrow> sfmm_state \<Rightarrow> (real \<times> sfmm_state) option" where
  "sf_peak_utilization cfg s =
     (let heapSize = real (unat (mem_end s - heap_start cfg))
      in if heapSize = 0 then Some (0, s)
         else Option.bind (updateMaxAggPayload cfg s)
                (\<lambda>s1. Some (maxAggPayload s1 / heapSize, s1)))"

subsection \<open>Sequences of calls\<close>

datatype heap_call = Malloc sf_size_t | Free addr | Realloc addr sf_size_t | Peak

text \<open>The state after one call of the public interface; \<open>None\<close> when the call does not
  return (it aborts the process or never ends).\<close>

fun run_call :: "sfmm_config \<Rightarrow> sfmm_state \<Rightarrow> heap_call \<Rightarrow> sfmm_state option" where
  "run_call cfg s (Malloc sz) = map_option snd (sf_malloc cfg s sz)"
| "run_call cfg s (Free pp) = (case sf_free cfg s pp of Aborted \<Rightarrow> None | Ret s' \<Rightarrow> Some s')"
| "run_call cfg s (Realloc pp rsize) =
     (case sf_realloc cfg s pp rsize of
        None \<Rightarrow> None
      | Some Aborted \<Rightarrow> None
      | Some (Ret (p, s')) \<Rightarrow> Some s')"
| "run_call cfg s Peak = map_option snd (sf_peak_utilization cfg s)"

fun run_calls :: "sfmm_config \<Rightarrow> sfmm_state \<Rightarrow> heap_call list \<Rightarrow> sfmm_state option" where
  "run_calls cfg s [] = Some s"
| "run_calls cfg s (c # cs) = Option.bind (run_call cfg s c) (\<lambda>s'. run_calls cfg s' cs)"

text \<open>The step of the peak statistic over one call: it keeps its value, or it is the larger
  of its old value and the aggregate payload of the heap the call leaves.\<close>

definition observed_or_kept :: "sfmm_config \<Rightarrow> sfmm_state \<Rightarrow> sfmm_state \<Rightarrow> bool" where
  "observed_or_kept cfg s s' =
     (maxAggPayload s' = maxAggPayload s
      \<or> (case aggPayload_now cfg s' of
            None \<Rightarrow> False
          | Some agg \<Rightarrow> maxAggPayload s' = max (maxAggPayload s) agg))"

text \<open>Every free-list head has both links set.\<close>

definition heads_linked :: "sfmm_config \<Rightarrow> sfmm_state \<Rightarrow> bool" where
  "heads_linked cfg s =
     list_all (\<lambda>c. links_next s (fl_head cfg c) \<noteq> 0 \<and> links_prev s (fl_head cfg c) \<noteq> 0)
       [0 ..< NUM_FREE_LISTS cfg]"

subsection \<open>Frames\<close>

text \<open>Two states that differ in the content of memory at most.\<close>

definition mem_only :: "sfmm_state \<Rightarrow> sfmm_state \<Rightarrow> bool" where
  "mem_only s s' = (s' = s\<lparr>mem := mem s'\<rparr>)"

subsection \<open>The heap invariants of the spec, as checks on a state\<close>

text \<open>The blocks met when walking from \<open>cur\<close> by adding each block's size, if the walk
  lands exactly on the epilogue within \<open>fuel\<close> steps; \<open>None\<close> when it steps over the
  epilogue, meets a block of size 0 or runs out of steps. A heap of \<open>n\<close> bytes has fewer
  than \<open>n\<close> blocks.\<close>

fun walk_blocks :: "nat \<Rightarrow> sfmm_config \<Rightarrow> sfmm_state \<Rightarrow> addr \<Rightarrow> addr \<Rightarrow> addr list option" where
  "walk_blocks 0 cfg s cur epilogue = None"
| "walk_blocks (Suc fuel) cfg s cur epilogue =
     (if cur = epilogue then Some []
      else if cur > epilogue \<or> GET_B_SIZE cfg s cur = 0 then None
      else map_option ((#) cur) (walk_blocks fuel cfg s (NEXT_BLOCK cfg s cur) epilogue))"

definition heap_blocks :: "sfmm_config \<Rightarrow> sfmm_state \<Rightarrow> addr list option" where
  "heap_blocks cfg s =
     walk_blocks (unat (mem_end s - heap_start cfg)) cfg s (heap_start cfg + 4 * ROW_SIZE)
       (mem_end s - 2 * ROW_SIZE)"

fun adjacent_free :: "sfmm_config \<Rightarrow> sfmm_state \<Rightarrow> addr list \<Rightarrow> bool" where
  "adjacent_free cfg s (b1 # b2 # bs) =
     ((\<not> IS_ALLOCD cfg s b1 \<and> \<not> IS_ALLOCD cfg s b2) \<or> adjacent_free cfg s (b2 # bs))"
| "adjacent_free cfg s bs = False"

text \<open>The two invariants of claim C1: the blocks tile the heap, and no two neighbours are
  both free.\<close>

definition heap_tiled_and_coalesced :: "sfmm_config \<Rightarrow> sfmm_state \<Rightarrow> bool" where
  "heap_tiled_and_coalesced cfg s =
     (case heap_blocks cfg s of None \<Rightarrow> False | Some bs \<Rightarrow> \<not> adjacent_free cfg s bs)"

text \<open>The sum the peak statistic stands for, in the words of the spec: the payload sizes of
  those blocks of \<open>bs\<close> that are allocated and not in a quick list.\<close>

definition spec_aggregate_payload :: "sfmm_config \<Rightarrow> sfmm_state \<Rightarrow> addr list \<Rightarrow> real" where
  "spec_aggregate_payload cfg s bs =
     sum_list (map (\<lambda>b. real (unat (payload_of cfg (header s b))))
       (filter (\<lambda>b. IS_ALLOCD cfg s b \<and> (header s b XOR MAGIC cfg) AND IN_QUICK_LIST = 0) bs))"

text \<open>A block that counts for the statistic and the payload size its header records.\<close>

definition live_payload :: "sfmm_config \<Rightarrow> sfmm_state \<Rightarrow> addr \<Rightarrow> bool \<times> nat" where
  "live_payload cfg s b =
     (IS_ALLOCD cfg s b \<and> (header s b XOR MAGIC cfg) AND IN_QUICK_LIST = 0,
      unat (payload_of cfg (header s b)))"

text \<open>What linking the free-list heads does to a state \<open>s\<close>: only memory changes, and a row
  changes only if it is a link field of a free-list head that held NULL; it then holds the
  address of that head.\<close>

definition only_null_links_set :: "sfmm_config \<Rightarrow> sfmm_state \<Rightarrow> sfmm_state \<Rightarrow> bool" where
  "only_null_links_set cfg s s' =
     (mem_only s s'
      \<and> (\<forall>a. mem s' a = mem s a
             \<or> (mem s a = 0
                \<and> (\<exists>c. c < NUM_FREE_LISTS cfg
                        \<and> (a = fl_head cfg c + 16 \<or> a = fl_head cfg c + 24)
                        \<and> mem s' a = fl_head cfg c))))"

subsection \<open>A concrete configuration\<close>

text \<open>Ten quick lists of capacity 5, ten free lists and pages of 1024 bytes; a heap of at
  most 20 pages at address \<open>0x10000\<close>, and the free-list heads at \<open>0x1000\<close>.\<close>

definition cfg0 :: sfmm_config where
  "cfg0 = \<lparr>MAGIC = 0x5A5AC3C3A5A53C3C, NUM_QUICK_LISTS = 10, QUICK_LIST_MAX = 5,
           NUM_FREE_LISTS = 10, PAGE_SZ = 1024, heap_start = 0x10000,
           heap_limit = 0x15000, free_list_heads = 0x1000\<rparr>"

text \<open>The state of a process that has not called the allocator yet: zeroed globals, an
  empty heap, zeroed memory.\<close>

definition fresh :: "sfmm_config \<Rightarrow> sfmm_state" where
  "fresh cfg = \<lparr>mem = (\<lambda>a. 0), ql_length = (\<lambda>i. 0), ql_first = (\<lambda>i. 0),
                mem_end = heap_start cfg, maxAggPayload = 0, sf_errno = 0\<rparr>"

subsection \<open>Call sequences examined below\<close>

text \<open>Two allocations with a reading of the peak utilization after each. The second
  allocation does not fit the first page.\<close>

definition peak_scenario :: "(real \<times> real) option" where
  "peak_scenario =
     Option.bind (sf_malloc cfg0 (fresh cfg0) 900) (\<lambda>(p, s1).
     Option.bind (sf_peak_utilization cfg0 s1) (\<lambda>(u1, s2).
     Option.bind (sf_malloc cfg0 s2 200) (\<lambda>(q, s3).
     Option.bind (sf_peak_utilization cfg0 s3) (\<lambda>(u2, s4). Some (u1, u2)))))"

text \<open>Six allocations of 16 bytes (blocks of 32 bytes) and six frees of the pointers they
  returned: the pointers, and the length of quick list 0 before the first free and after
  each free.\<close>

definition six_frees :: "(addr list \<times> int list) option" where
  "six_frees =
     Option.bind (sf_malloc cfg0 (fresh cfg0) 16) (\<lambda>(p1, s1).
     Option.bind (sf_malloc cfg0 s1 16) (\<lambda>(p2, s2).
     Option.bind (sf_malloc cfg0 s2 16) (\<lambda>(p3, s3).
     Option.bind (sf_malloc cfg0 s3 16) (\<lambda>(p4, s4).
     Option.bind (sf_malloc cfg0 s4 16) (\<lambda>(p5, s5).
     Option.bind (sf_malloc cfg0 s5 16) (\<lambda>(p6, s6).
     Option.bind (run_call cfg0 s6 (Free p1)) (\<lambda>t1.
     Option.bind (run_call cfg0 t1 (Free p2)) (\<lambda>t2.
     Option.bind (run_call cfg0 t2 (Free p3)) (\<lambda>t3.
     Option.bind (run_call cfg0 t3 (Free p4)) (\<lambda>t4.
     Option.bind (run_call cfg0 t4 (Free p5)) (\<lambda>t5.
     Option.bind (run_call cfg0 t5 (Free p6)) (\<lambda>t6.
       Some ([p1, p2, p3, p4, p5, p6],
             map (\<lambda>t. ql_length t 0) [s6, t1, t2, t3, t4, t5, t6])))))))))))))"

text \<open>\<^verbatim>\<open>b = sf_malloc(184); c = sf_malloc(16); x = sf_malloc(216); y = sf_malloc(16);
  sf_free(x); sf_free(b); x2 = sf_malloc(216); sf_free(x2)\<close>. Observed: the invariants
  before and after the last call; then, in the last state, the size and the allocated bit
  of the block of \<open>b\<close>, the distance from that block to the block of \<open>c\<close>, and the
  allocated bit of the block of \<open>c\<close>, which was never freed.\<close>

definition overlap_scenario :: "(bool \<times> bool \<times> sf_size_t \<times> bool \<times> addr \<times> bool) option" where
  "overlap_scenario =
     Option.bind (sf_malloc cfg0 (fresh cfg0) 184) (\<lambda>(b, s1).
     Option.bind (sf_malloc cfg0 s1 16) (\<lambda>(c, s2).
     Option.bind (sf_malloc cfg0 s2 216) (\<lambda>(x, s3).
     Option.bind (sf_malloc cfg0 s3 16) (\<lambda>(y, s4).
     Option.bind (run_call cfg0 s4 (Free x)) (\<lambda>s5.
     Option.bind (run_call cfg0 s5 (Free b)) (\<lambda>s6.
     Option.bind (sf_malloc cfg0 s6 216) (\<lambda>(x2, s7).
     Option.bind (run_call cfg0 s7 (Free x2)) (\<lambda>s8.
       Some (heap_tiled_and_coalesced cfg0 s7, heap_tiled_and_coalesced cfg0 s8,
             GET_B_SIZE cfg0 s8 (b - 16), IS_ALLOCD cfg0 s8 (b - 16),
             (c - 16) - (b - 16), IS_ALLOCD cfg0 s8 (c - 16))))))))))"

text \<open>The same eight calls, then \<^verbatim>\<open>p = sf_malloc(440)\<close>. Observed: \<^verbatim>\<open>maxAggPayload\<close> before
  the last call, the pointer it returns, \<^verbatim>\<open>maxAggPayload\<close> after it, what the heap walk of
  \<^verbatim>\<open>updateMaxAggPayload\<close> computes on the final heap, and, for the blocks of \<open>c\<close>, \<open>y\<close> and
  \<open>p\<close>, none of which was freed, whether the block is allocated outside the quick lists and
  the payload size in its header.\<close>

definition lost_payload_scenario ::
  "(real \<times> addr \<times> real \<times> real option \<times> (bool \<times> nat) list) option" where
  "lost_payload_scenario =
     Option.bind (sf_malloc cfg0 (fresh cfg0) 184) (\<lambda>(b, s1).
     Option.bind (sf_malloc cfg0 s1 16) (\<lambda>(c, s2).
     Option.bind (sf_malloc cfg0 s2 216) (\<lambda>(x, s3).
     Option.bind (sf_malloc cfg0 s3 16) (\<lambda>(y, s4).
     Option.bind (run_call cfg0 s4 (Free x)) (\<lambda>s5.
     Option.bind (run_call cfg0 s5 (Free b)) (\<lambda>s6.
     Option.bind (sf_malloc cfg0 s6 216) (\<lambda>(x2, s7).
     Option.bind (run_call cfg0 s7 (Free x2)) (\<lambda>s8.
     Option.bind (sf_malloc cfg0 s8 440) (\<lambda>(p, s9).
       Some (maxAggPayload s8, p, maxAggPayload s9, aggPayload_now cfg0 s9,
             map (live_payload cfg0 s9) [c - 16, y - 16, p - 16]))))))))))"

section \<open>Properties of the variable store\<close>

lemma of_char_nat_bound: "(of_char ch :: nat) < 256"
proof -
  have "(of_char ch :: nat) mod 256 = of_char ch" by simp
  moreover have "(of_char ch :: nat) mod 256 < 256" by (rule mod_less_divisor) simp
  ultimately show ?thesis by simp
qed

lemma stb_small: "n < 128 \<Longrightarrow> (int n + 128) mod 256 - 128 = int n"
  by simp

lemma stb_big: "128 \<le> n \<Longrightarrow> n < 256 \<Longrightarrow> (int n + 128) mod 256 - 128 = int n - 256"
proof -
  assume a: "128 \<le> n" "n < 256"
  have "int n + 128 = int n - 128 + 256" by simp
  then have "(int n + 128) mod 256 = (int n - 128 + 256) mod 256" by (rule arg_cong)
  also have "\<dots> = (int n - 128) mod 256" by (simp only: mod_add_self2)
  also have "\<dots> = int n - 128" using a by simp
  finally show ?thesis by simp
qed

lemma sint8_of_nat: "sint (of_nat n :: 8 word) = (int n + 128) mod 256 - 128"
  by (simp add: signed_of_nat signed_take_bit_eq_take_bit_shift take_bit_eq_mod)

lemma schar_eq:
  "schar ch = (if (of_char ch :: nat) < 128 then int (of_char ch) else int (of_char ch) - 256)"
proof -
  define n where "n = (of_char ch :: nat)"
  have n: "n < 256" unfolding n_def by (rule of_char_nat_bound)
  have w: "(of_char ch :: 8 word) = of_nat n" unfolding n_def by (simp add: of_nat_of_char)
  have "sint (of_nat n :: 8 word) = (if n < 128 then int n else int n - 256)"
    using n stb_small [of n] stb_big [of n] by (simp add: sint8_of_nat)
  then show ?thesis unfolding schar_def w n_def .
qed

lemma schar_consts: "schar CHR ''0'' = 48" "schar CHR ''9'' = 57"
  by (simp_all add: schar_eq)

lemma schar_digit: "(schar ch < schar CHR ''0'' \<or> schar CHR ''9'' < schar ch) = (\<not> is_digit ch)"
proof -
  define n where "n = (of_char ch :: nat)"
  have n: "n < 256" unfolding n_def by (rule of_char_nat_bound)
  have "((if n < 128 then int n else int n - 256) < 48 \<or> 57 < (if n < 128 then int n else int n - 256))
        = (\<not> (48 \<le> n \<and> n \<le> 57))"
    using n by (cases "n < 128") auto
  then show ?thesis
    unfolding schar_consts is_digit_def schar_eq [of ch] n_def .
qed

lemma get_int_loop_accepts: "(get_int_loop ds b \<noteq> None) = list_all is_digit ds"
  by (induction ds arbitrary: b) (simp_all add: schar_digit del: not_None_eq)

lemma store_get_int_accepts:
  assumes "store_get_string lookup var = Some val"
  shows "(fst (store_get_int lookup var valp) = 0) =
     list_all is_digit (case val of [] \<Rightarrow> [] | c0 # tl0 \<Rightarrow> if c0 = CHR ''-'' then tl0 else val)"
proof (cases val)
  case Nil
  with assms show ?thesis by (simp add: store_get_int_def)
next
  case (Cons c0 tl0)
  show ?thesis
  proof (cases "c0 = CHR ''-''")
    case True
    with Cons assms get_int_loop_accepts [of tl0 0] show ?thesis
      by (cases "get_int_loop tl0 0") (simp_all add: store_get_int_def)
  next
    case False
    with Cons assms get_int_loop_accepts [of val 0] show ?thesis
      by (cases "get_int_loop (c0 # tl0) 0") (simp_all add: store_get_int_def del: get_int_loop.simps)
  qed
qed

text \<open>Claim C9. The spec has \<^verbatim>\<open>store_get_int\<close> return -1 on every string that is not an
  optional minus sign followed by at least one digit, the empty string and \<^verbatim>\<open>"-"\<close>
  included. On both of these the loop body never runs: the code returns 0 and stores 0.\<close>

theorem store_get_int_no_digits:
  "store_get_int [(''x'', Some '''')] ''x'' 7 = (0, 0)
   \<and> store_get_int [(''x'', Some ''-'')] ''x'' 7 = (0, 0)
   \<and> \<not> spec_integer_syntax '''' \<and> \<not> spec_integer_syntax ''-''"
  by (simp add: store_get_int_def spec_integer_syntax_def)

section \<open>Properties of the job runner\<close>

text \<open>Claim C5. The spec assigns the largest job id plus one. The loop stops on the last node
  and records the id of the node before it, so with a single job in the table the id is
  \<open>-2 + 2 = 0\<close> again: two successive runs both return job id 0.\<close>

theorem jobs_run_second_id:
  "Option.bind
     (jobs_run no_jobs (Some sleep_pipeline)
        \<lparr>pipe_ret = 0, fork_ret = 100, pipe_data = [], malloc_next = NullPtr\<rparr>)
     (\<lambda>(r, w). jobs_run w (Some sleep_pipeline)
        \<lparr>pipe_ret = 0, fork_ret = 101, pipe_data = [], malloc_next = NullPtr\<rparr>)
   = Some (Returns 0,
       \<lparr>jobTable = [a_job 0 100 RUNNING, a_job 0 101 RUNNING], list_end = NullPtr,
        freed = [], killed = []\<rparr>)"
  by (simp add: jobs_run_def no_jobs_def sleep_pipeline_def a_job_def)

text \<open>Claim C6. The spec has \<^verbatim>\<open>jobs_run\<close> return -1 when \<^verbatim>\<open>fork\<close> fails. The code tests
  only \<^verbatim>\<open>pid != 0\<close>: a failed fork (-1) takes the parent branch, a job in state RUNNING with
  process group -1 is linked in, and its id is returned.\<close>

theorem jobs_run_fork_failure:
  "jobs_run no_jobs (Some sleep_pipeline)
     \<lparr>pipe_ret = 0, fork_ret = -1, pipe_data = [], malloc_next = NullPtr\<rparr>
   = Some (Returns 0,
       \<lparr>jobTable = [a_job 0 (-1) RUNNING], list_end = NullPtr, freed = [], killed = []\<rparr>)"
  by (simp add: jobs_run_def no_jobs_def sleep_pipeline_def a_job_def)

text \<open>Claim C8. The spec has \<^verbatim>\<open>jobs_expunge\<close> free the resources of the job. The code only
  unlinks the node: nothing is released, where \<^verbatim>\<open>jobs_fini\<close> on the same table releases the
  pipeline, the captured output and the node.\<close>

theorem jobs_expunge_releases_nothing:
  "jobs_expunge
     \<lparr>jobTable = [(a_job 0 100 COMPLETED)\<lparr>capturedOutput := Some ''Hi''\<rparr>], list_end = NullPtr,
      freed = [], killed = []\<rparr> 0
     = Some (0, \<lparr>jobTable = [], list_end = NullPtr, freed = [], killed = []\<rparr>)
   \<and> map_option (\<lambda>(r, w). freed w)
       (jobs_fini
          \<lparr>jobTable = [(a_job 0 100 COMPLETED)\<lparr>capturedOutput := Some ''Hi''\<rparr>],
           list_end = NullPtr, freed = [], killed = []\<rparr>)
     = Some [FreePipeline sleep_pipeline, FreeOutput (Some ''Hi''), FreeJob 0]"
  by (simp add: jobs_expunge_def jobs_fini_def a_job_def)

text \<open>Claim C7 has \<^verbatim>\<open>jobs_cancel\<close> succeed for every job that is not terminal and was never
  cancelled, and return -1 for an unknown job. \<^verbatim>\<open>jobs_cancel\<close> looks the job up by its id
  and acts on the first node that carries it. After two \<^verbatim>\<open>jobs_run\<close> calls both jobs carry
  id 0; once the first has completed, \<^verbatim>\<open>jobs_cancel(0)\<close> finds the completed job, returns -1
  and sends no signal, so the second job, RUNNING and never cancelled, cannot be cancelled.
  And where \<^verbatim>\<open>malloc\<close> did not return zeroed memory for the node, the lookup of an id that
  is not in the table runs off the end of the list instead of returning -1.\<close>

theorem jobs_cancel_misses_running_job:
  "two_runs_first_done
     = Some \<lparr>jobTable = [a_job 0 100 COMPLETED, a_job 0 101 RUNNING], list_end = NullPtr,
             freed = [], killed = []\<rparr>
   \<and> Option.bind two_runs_first_done (\<lambda>w. jobs_cancel w 0)
     = Some (-1, \<lparr>jobTable = [a_job 0 100 COMPLETED, a_job 0 101 RUNNING], list_end = NullPtr,
                  freed = [], killed = []\<rparr>)
   \<and> Option.bind
       (jobs_run no_jobs (Some sleep_pipeline)
          \<lparr>pipe_ret = 0, fork_ret = 100, pipe_data = [], malloc_next = WildPtr\<rparr>)
       (\<lambda>(r, w). jobs_cancel w 7)
     = None"
  by (simp add: two_runs_first_done_def jobs_run_def sigchld_def jobs_cancel_def no_jobs_def
      sleep_pipeline_def a_job_def)

section \<open>Properties of the heap engine\<close>

subsection \<open>Which fields an operation can change\<close>

text \<open>\<open>mem_only s s'\<close>: the two states differ in memory at most.\<close>

lemma mem_only_iff:
  "mem_only s t =
     (maxAggPayload t = maxAggPayload s \<and> mem_end t = mem_end s \<and> ql_length t = ql_length s
      \<and> ql_first t = ql_first s \<and> sf_errno t = sf_errno s)"
  by (cases s, cases t) (auto simp add: mem_only_def)

lemma mem_only_refl [simp]: "mem_only s s"
  by (simp add: mem_only_iff)

lemma mem_only_trans: "mem_only s t \<Longrightarrow> mem_only t u \<Longrightarrow> mem_only s u"
  by (simp add: mem_only_iff)

lemma mem_only_step:
  "mem_only s t \<Longrightarrow> mem_only s (set_prev_footer t b v)"
  "mem_only s t \<Longrightarrow> mem_only s (set_header t b v)"
  "mem_only s t \<Longrightarrow> mem_only s (set_links_next t b v)"
  "mem_only s t \<Longrightarrow> mem_only s (set_links_prev t b v)"
  by (simp_all add: set_prev_footer_def set_header_def set_links_next_def set_links_prev_def
      mem_only_iff)

lemma mem_only_verifyFreeListLinks: "mem_only s t \<Longrightarrow> mem_only s (verifyFreeListLinks cfg c t)"
  by (simp add: verifyFreeListLinks_def Let_def mem_only_step)

lemma mem_only_fold_verify:
  "mem_only s t \<Longrightarrow> mem_only s (fold (verifyFreeListLinks cfg) cs t)"
  by (induction cs arbitrary: t) (simp_all add: mem_only_verifyFreeListLinks)

lemma mem_only_removeFromFreeList: "mem_only s t \<Longrightarrow> mem_only s (removeFromFreeList t b)"
  by (simp add: removeFromFreeList_def Let_def mem_only_step)

lemma mem_only_insertIntoFreeList: "mem_only s t \<Longrightarrow> mem_only s (insertIntoFreeList cfg t b)"
  by (simp add: insertIntoFreeList_def Let_def mem_only_step mem_only_verifyFreeListLinks)

lemma mem_only_coalesce: "mem_only s t \<Longrightarrow> mem_only s (snd (coalesce cfg t b))"
  by (simp add: coalesce_def Let_def mem_only_step mem_only_removeFromFreeList
      mem_only_insertIntoFreeList)

lemma mem_only_flush_loop: "mem_only s t \<Longrightarrow> mem_only s (flush_loop cfg n bs t cur)"
  by (induction n arbitrary: t cur) (simp_all add: Let_def mem_only_step mem_only_coalesce)

lemma mem_only_setPrevAllocd: "mem_only s t \<Longrightarrow> mem_only s (setPrevAllocd cfg t b v)"
  by (simp add: setPrevAllocd_def Let_def mem_only_step)

lemma mem_only_splitBlock: "mem_only s t \<Longrightarrow> mem_only s (splitBlock cfg t b p e r)"
proof -
  assume a: "mem_only s t"
  have "\<And>u. mem_only s u \<Longrightarrow>
      mem_only s (case coalesce cfg u (NEXT_BLOCK_S b e) of
                    (frag', s7) \<Rightarrow> set_prev_footer s7 (NEXT_BLOCK_S frag' r) (header s7 frag'))"
    using mem_only_coalesce [of s _ cfg "NEXT_BLOCK_S b e"]
    by (auto simp add: mem_only_step split: prod.splits) (metis mem_only_step(1) snd_conv)
  then show ?thesis
    using a by (simp add: splitBlock_def Let_def mem_only_step mem_only_removeFromFreeList)
qed

lemma mem_only_memcpy: "mem_only s t \<Longrightarrow> mem_only s (memcpy t d sr n)"
  by (simp add: memcpy_def mem_only_iff)

lemmas getFreeListBlock_loop_induct = getFreeListBlock_loop.raw_induct [rotated 1, consumes 1]
lemmas malloc_extend_loop_induct = malloc_extend_loop.raw_induct [rotated 1, consumes 1]

lemma getFreeListBlock_loop_mem_only:
  "getFreeListBlock_loop cfg s sz i = Some r \<Longrightarrow> mem_only s (snd r)"
proof (induction rule: getFreeListBlock_loop_induct)
  case (1 f cfg s sz i r)
  show ?case
  proof (cases "i < NUM_FREE_LISTS cfg")
    case False
    with 1(2) show ?thesis by auto
  next
    case True
    let ?s1 = "verifyFreeListLinks cfg i s"
    have m1: "mem_only s ?s1" by (simp add: mem_only_verifyFreeListLinks)
    from True 1(2) obtain cur where 
      cur: "fl_scan cfg ?s1 (fl_head cfg i) (links_next ?s1 (fl_head cfg i)) sz = Some cur"
      and r: "(if cur \<noteq> fl_head cfg i then Some (cur, removeFromFreeList ?s1 cur)
               else f cfg ?s1 sz (i + 1)) = Some r"
      by (auto simp add: Let_def split: Option.bind_splits)
    show ?thesis
    proof (cases "cur \<noteq> fl_head cfg i")
      case True
      with r m1 show ?thesis by (auto simp add: mem_only_removeFromFreeList)
    next
      case False
      with r have "f cfg ?s1 sz (i + 1) = Some r" by simp
      from 1(1) [OF this] m1 show ?thesis by (rule mem_only_trans [rotated])
    qed
  qed
qed

lemma getFreeListBlock_mem_only: "getFreeListBlock cfg s sz = Some r \<Longrightarrow> mem_only s (snd r)"
  unfolding getFreeListBlock_def by (rule getFreeListBlock_loop_mem_only)

text \<open>The operations that also move the heap end or touch the quick lists leave the
  statistics alone.\<close>

lemma sf_mem_grow_kept:
  "maxAggPayload (snd (sf_mem_grow cfg s)) = maxAggPayload s
   \<and> ql_length (snd (sf_mem_grow cfg s)) = ql_length s
   \<and> ql_first (snd (sf_mem_grow cfg s)) = ql_first s
   \<and> sf_errno (snd (sf_mem_grow cfg s)) = sf_errno s
   \<and> mem (snd (sf_mem_grow cfg s)) = mem s"
  by (simp add: sf_mem_grow_def)

lemma initializeHeap_kept:
  "maxAggPayload (snd (initializeHeap cfg s)) = maxAggPayload s
   \<and> ql_length (snd (initializeHeap cfg s)) = ql_length s
   \<and> ql_first (snd (initializeHeap cfg s)) = ql_first s"
proof (cases "sf_mem_grow cfg s")
  case (Pair heapStart s0)
  with sf_mem_grow_kept [of cfg s] have k: "maxAggPayload s0 = maxAggPayload s"
    "ql_length s0 = ql_length s" "ql_first s0 = ql_first s" by simp_all
  have "\<And>t. mem_only s0 t \<Longrightarrow> maxAggPayload t = maxAggPayload s \<and> ql_length t = ql_length s
      \<and> ql_first t = ql_first s"
    using k by (simp add: mem_only_iff)
  note fin = this
  show ?thesis
    unfolding initializeHeap_def Pair
    by (auto simp add: Let_def k intro!: fin [THEN conjunct1] fin [THEN conjunct2, THEN conjunct1]
        fin [THEN conjunct2, THEN conjunct2] mem_only_step mem_only_insertIntoFreeList)
qed

lemma coalesce_kept: "maxAggPayload (snd (coalesce cfg s b)) = maxAggPayload s"
  using mem_only_coalesce [of s s cfg b] by (simp add: mem_only_iff)

lemma extendHeap_kept: "maxAggPayload (snd (extendHeap cfg s)) = maxAggPayload s"
proof (cases "sf_mem_grow cfg s")
  case (Pair nextPageStart s0)
  with sf_mem_grow_kept [of cfg s] have k: "maxAggPayload s0 = maxAggPayload s" by simp
  have fin: "\<And>t. mem_only s0 t \<Longrightarrow> maxAggPayload t = maxAggPayload s"
    using k by (simp add: mem_only_iff)
  show ?thesis
    unfolding extendHeap_def Pair
    by (auto simp add: Let_def k split: prod.splits intro!: fin mem_only_step)
       (metis mem_only_coalesce mem_only_refl mem_only_step snd_conv)
qed

lemma malloc_extend_loop_kept:
  "malloc_extend_loop cfg s block e = Some r \<Longrightarrow> maxAggPayload (snd r) = maxAggPayload s"
proof (induction rule: malloc_extend_loop_induct)
  case (1 f cfg s block e r)
  show ?case
  proof (cases "block = 0")
    case False
    with 1(2) show ?thesis by auto
  next
    case True
    obtain rc s1 where eh: "extendHeap cfg s = (rc, s1)" by (cases "extendHeap cfg s")
    with extendHeap_kept [of cfg s] have k1: "maxAggPayload s1 = maxAggPayload s" by simp
    show ?thesis
    proof (cases "rc < 0")
      case True
      with \<open>block = 0\<close> eh 1(2) k1 show ?thesis by auto
    next
      case False
      with \<open>block = 0\<close> eh 1(2) obtain b2 s2 where
        g: "getFreeListBlock cfg s1 e = Some (b2, s2)" and f: "f cfg s2 b2 e = Some r"
        by (auto split: Option.bind_splits)
      from getFreeListBlock_mem_only [OF g] have "maxAggPayload s2 = maxAggPayload s1"
        by (simp add: mem_only_iff)
      with 1(1) [OF f] k1 show ?thesis by simp
    qed
  qed
qed

lemma insertIntoQuickList_kept:
  "maxAggPayload (insertIntoQuickList cfg s b bs i) = maxAggPayload s
   \<and> mem_end (insertIntoQuickList cfg s b bs i) = mem_end s"
proof -
  have fin: "\<And>t. mem_only s t \<Longrightarrow> maxAggPayload t = maxAggPayload s \<and> mem_end t = mem_end s"
    by (simp add: mem_only_iff)
  have a: "mem_only s (set_prev_footer (set_header s b x) y z)" for x y z
    by (simp add: mem_only_step)
  show ?thesis
    unfolding insertIntoQuickList_def Let_def
    using fin [OF a] fin [OF mem_only_flush_loop [OF a]] fin [OF mem_only_step(4) [OF mem_only_step(3) [OF a]]]
    by (auto simp add: mem_only_iff set_links_next_def set_links_prev_def)
qed

lemma getQuickListBlock_kept:
  "maxAggPayload (snd (getQuickListBlock cfg s e)) = maxAggPayload s
   \<and> mem_end (snd (getQuickListBlock cfg s e)) = mem_end s
   \<and> mem (snd (getQuickListBlock cfg s e)) = mem s"
  by (simp add: getQuickListBlock_def Let_def)

lemmas aggPayload_loop_induct = aggPayload_loop.raw_induct [rotated 1, consumes 1]

text \<open>The heap walk reads memory only.\<close>

lemma aggPayload_loop_mem:
  "aggPayload_loop cfg s c e a = Some y \<Longrightarrow> mem t = mem s \<Longrightarrow> aggPayload_loop cfg t c e a = Some y"
proof (induction rule: aggPayload_loop_induct)
  case (1 f cfg s c e a y)
  have rd: "NEXT_BLOCK cfg t c = NEXT_BLOCK cfg s c" "IS_ALLOCD cfg t c = IS_ALLOCD cfg s c"
    "header t c = header s c"
    using 1(3) by (simp_all add: NEXT_BLOCK_def IS_ALLOCD_def header_def)
  show ?case
  proof (cases "c < e")
    case False
    with 1(2) show ?thesis by (subst aggPayload_loop.simps) simp
  next
    case True
    with 1(2) have "f cfg s (NEXT_BLOCK cfg s c) e
          (if IS_ALLOCD cfg s c \<and> (header s c XOR MAGIC cfg) AND IN_QUICK_LIST = 0
           then a + real (unat (payload_of cfg (header s c))) else a) = Some y"
      by simp
    from 1(1) [OF this 1(3)] True show ?thesis
      by (subst aggPayload_loop.simps) (auto simp add: rd)
  qed
qed

lemma aggPayload_now_mem:
  assumes "mem t = mem s" "mem_end t = mem_end s"
  shows "aggPayload_now cfg t = aggPayload_now cfg s"
proof (cases "aggPayload_now cfg s")
  case (Some y)
  then show ?thesis
    using aggPayload_loop_mem [of cfg s _ _ 0 y t] assms by (simp add: aggPayload_now_def)
next
  case None
  show ?thesis
  proof (cases "aggPayload_now cfg t")
    case None
    with \<open>aggPayload_now cfg s = None\<close> show ?thesis by simp
  next
    case (Some y)
    then have "aggPayload_now cfg s = Some y"
      using aggPayload_loop_mem [of cfg t _ _ 0 y s] assms by (simp add: aggPayload_now_def)
    with None show ?thesis by simp
  qed
qed

lemma updateMaxAggPayload_result:
  assumes "updateMaxAggPayload cfg s = Some t"
  shows "t\<lparr>maxAggPayload := maxAggPayload s\<rparr> = s
         \<and> observed_or_kept cfg s t
         \<and> (heap_start cfg \<noteq> mem_end s \<longrightarrow>
               aggPayload_now cfg t \<noteq> None
               \<and> maxAggPayload t = max (maxAggPayload s) (the (aggPayload_now cfg t)))"
proof (cases "heap_start cfg = mem_end s")
  case True
  with assms show ?thesis by (auto simp add: updateMaxAggPayload_def observed_or_kept_def)
next
  case False
  with assms obtain agg where agg: "aggPayload_now cfg s = Some agg"
    and t: "t = (if agg > maxAggPayload s then s\<lparr>maxAggPayload := agg\<rparr> else s)"
    by (auto simp add: updateMaxAggPayload_def split: Option.bind_splits)
  have "mem t = mem s" "mem_end t = mem_end s" using t by auto
  from aggPayload_now_mem [OF this] agg have at: "aggPayload_now cfg t = Some agg" by simp
  have mx: "maxAggPayload t = max (maxAggPayload s) agg" using t by auto
  have fr: "t\<lparr>maxAggPayload := maxAggPayload s\<rparr> = s" using t by (cases s) auto
  have ok: "observed_or_kept cfg s t" using at mx by (simp add: observed_or_kept_def)
  show ?thesis
    using at mx fr ok by simp
qed

lemma observed_or_kept_mono: "observed_or_kept cfg s t \<Longrightarrow> maxAggPayload s \<le> maxAggPayload t"
  by (auto simp add: observed_or_kept_def split: option.splits)

lemma observed_or_kept_pre:
  "maxAggPayload s1 = maxAggPayload s \<Longrightarrow> observed_or_kept cfg s1 t \<Longrightarrow> observed_or_kept cfg s t"
  by (auto simp add: observed_or_kept_def split: option.splits)

lemma kept_observed: "maxAggPayload t = maxAggPayload s \<Longrightarrow> observed_or_kept cfg s t"
  by (simp add: observed_or_kept_def)

lemma malloc_place_step:
  assumes "malloc_place cfg s sz e = Some (p, t)"
  shows "observed_or_kept cfg s t"
proof -
  obtain qblock s1 where q: "getQuickListBlock cfg s e = (qblock, s1)"
    by (cases "getQuickListBlock cfg s e")
  with getQuickListBlock_kept [of cfg s e] have k1: "maxAggPayload s1 = maxAggPayload s" by simp
  show ?thesis
  proof (cases "qblock \<noteq> 0")
    case True
    define s4 where "s4 = setPrevAllocd cfg
        (set_prev_footer
           (set_header s1 qblock
              ((push_bit 32 (ucast sz) OR ucast e OR THIS_BLOCK_ALLOCATED
                  OR GET_PREV_ALLOCD cfg s1 qblock) XOR MAGIC cfg))
           (NEXT_BLOCK_S qblock e)
           (header (set_header s1 qblock
              ((push_bit 32 (ucast sz) OR ucast e OR THIS_BLOCK_ALLOCATED
                  OR GET_PREV_ALLOCD cfg s1 qblock) XOR MAGIC cfg)) qblock))
        (NEXT_BLOCK_S qblock e) 1"
    have "mem_only s1 s4" unfolding s4_def
      by (intro mem_only_setPrevAllocd mem_only_step mem_only_refl)
    then have k4: "maxAggPayload s4 = maxAggPayload s" using k1 by (simp add: mem_only_iff)
    from assms q True have "Option.bind (updateMaxAggPayload cfg s4) (\<lambda>s5. Some (qblock + 16, s5)) = Some (p, t)"
      by (simp add: malloc_place_def Let_def s4_def)
    then have "updateMaxAggPayload cfg s4 = Some t" by (auto split: Option.bind_splits)
    from updateMaxAggPayload_result [OF this] k4 show ?thesis
      by (auto intro: observed_or_kept_pre)
  next
    case False
    with assms q obtain fblock s2 block s3 where
      g: "getFreeListBlock cfg s1 e = Some (fblock, s2)"
      and l: "malloc_extend_loop cfg s2 fblock e = Some (block, s3)"
      and r: "(if block = 0 then Some (0, s3)
               else
                 let blockSize = GET_B_SIZE cfg s3 block;
                     remainderSize = blockSize - e;
                     s4 = (if remainderSize \<ge> MIN_BLOCK_SIZE
                           then splitBlock cfg s3 block (push_bit 32 (ucast sz)) e remainderSize
                           else
                             let t1 = set_header s3 block
                                        ((push_bit 32 (ucast sz) OR ucast blockSize
                                            OR THIS_BLOCK_ALLOCATED
                                            OR GET_PREV_ALLOCD cfg s3 block)
                                           XOR MAGIC cfg);
                                 t2 = removeFromFreeList t1 block;
                                 pastBlock = NEXT_BLOCK_S block blockSize;
                                 t3 = set_prev_footer t2 pastBlock (header t2 block)
                             in setPrevAllocd cfg t3 pastBlock 1)
                 in Option.bind (updateMaxAggPayload cfg s4) (\<lambda>s5. Some (block + 16, s5)))
              = Some (p, t)"
      by (auto simp add: malloc_place_def Let_def split: Option.bind_splits)
    from getFreeListBlock_mem_only [OF g] k1 have k2: "maxAggPayload s2 = maxAggPayload s"
      by (simp add: mem_only_iff)
    from malloc_extend_loop_kept [OF l] k2 have k3: "maxAggPayload s3 = maxAggPayload s" by simp
    show ?thesis
    proof (cases "block = 0")
      case True
      with r k3 show ?thesis by (auto intro: kept_observed)
    next
      case False
      have m: "mem_only s3 u \<Longrightarrow> updateMaxAggPayload cfg u = Some t \<Longrightarrow> observed_or_kept cfg s t" for u
        using k3 updateMaxAggPayload_result [of cfg u t]
        by (auto simp add: mem_only_iff intro: observed_or_kept_pre)
      from False r show ?thesis
        by (auto simp add: Let_def split: Option.bind_splits if_splits
            intro!: m [rotated] mem_only_splitBlock mem_only_setPrevAllocd mem_only_step
              mem_only_removeFromFreeList)
    qed
  qed
qed

lemma fold_verify_kept:
  "maxAggPayload (fold (verifyFreeListLinks cfg) cs s) = maxAggPayload s
   \<and> mem_end (fold (verifyFreeListLinks cfg) cs s) = mem_end s
   \<and> ql_length (fold (verifyFreeListLinks cfg) cs s) = ql_length s
   \<and> ql_first (fold (verifyFreeListLinks cfg) cs s) = ql_first s
   \<and> sf_errno (fold (verifyFreeListLinks cfg) cs s) = sf_errno s"
  using mem_only_fold_verify [of s s cfg cs] by (simp add: mem_only_iff)

lemma sf_malloc_step:
  assumes "sf_malloc cfg s sz = Some (p, t)"
  shows "observed_or_kept cfg s t"
proof (cases "sz = 0")
  case True
  with assms show ?thesis by (simp add: sf_malloc_def kept_observed)
next
  case False
  define s1 where "s1 = fold (verifyFreeListLinks cfg) [0 ..< NUM_FREE_LISTS cfg] s"
  have k1: "maxAggPayload s1 = maxAggPayload s" unfolding s1_def by (simp add: fold_verify_kept)
  obtain r s2 where i: "(if heap_start cfg = mem_end s1 then initializeHeap cfg s1 else (1, s1)) = (r, s2)"
    by (cases "if heap_start cfg = mem_end s1 then initializeHeap cfg s1 else (1, s1)")
  have k2: "maxAggPayload s2 = maxAggPayload s"
    using i k1 initializeHeap_kept [of cfg s1] by (auto split: if_splits)
  from assms False have
    "(case (if heap_start cfg = mem_end s1 then initializeHeap cfg s1 else (1, s1)) of
        (r, s2) \<Rightarrow>
          if r < 0 then Some (0, s2\<lparr>sf_errno := ENOMEM\<rparr>)
          else if effective_size sz < sz then Some (0, s2)
          else malloc_place cfg s2 sz (effective_size sz)) = Some (p, t)"
    unfolding s1_def by (simp add: sf_malloc_def Let_def)
  then have
    "(if r < 0 then Some (0, s2\<lparr>sf_errno := ENOMEM\<rparr>)
      else if effective_size sz < sz then Some (0, s2)
      else malloc_place cfg s2 sz (effective_size sz)) = Some (p, t)"
    unfolding i by simp
  then show ?thesis
    using k2 malloc_place_step [of cfg s2 sz "effective_size sz" p t]
    by (auto split: if_splits intro: kept_observed observed_or_kept_pre)
qed

lemma sf_free_kept:
  assumes "sf_free cfg s pp = Ret t"
  shows "maxAggPayload t = maxAggPayload s"
proof -
  from assms obtain block where v: "verifyPointer cfg s pp = Ret block" and nz: "block \<noteq> 0"
    by (auto simp add: sf_free_def split: outcome.splits if_splits)
  let ?bs = "GET_B_SIZE cfg s block"
  let ?q = "unat ((?bs - MIN_BLOCK_SIZE) div BLOCK_ALIGN)"
  show ?thesis
  proof (cases "?q < NUM_QUICK_LISTS cfg")
    case True
    with assms v nz have "t = insertIntoQuickList cfg s block ?bs ?q"
      by (simp add: sf_free_def Let_def)
    then show ?thesis by (simp add: insertIntoQuickList_kept)
  next
    case False
    define s5 where "s5 = setPrevAllocd cfg
        (set_prev_footer
           (set_links_prev
              (set_links_next
                 (set_header s block ((ucast ?bs OR GET_PREV_ALLOCD cfg s block) XOR MAGIC cfg))
                 block 0)
              block 0)
           (NEXT_BLOCK_S block ?bs)
           (header
              (set_links_prev
                 (set_links_next
                    (set_header s block ((ucast ?bs OR GET_PREV_ALLOCD cfg s block) XOR MAGIC cfg))
                    block 0)
                 block 0)
              block))
        (NEXT_BLOCK_S block ?bs) 0"
    have m5: "mem_only s s5" unfolding s5_def
      by (intro mem_only_setPrevAllocd mem_only_step mem_only_refl)
    obtain nb s6 where c: "coalesce cfg s5 block = (nb, s6)" by (cases "coalesce cfg s5 block")
    with mem_only_coalesce [OF m5, of cfg block] have m6: "mem_only s s6" by simp
    from assms v nz False c have "t = set_prev_footer s6 nb (header s6 block)"
      by (simp add: sf_free_def Let_def s5_def)
    with mem_only_step(1) [OF m6] show ?thesis by (simp add: mem_only_iff)
  qed
qed

lemma memcpy_kept: "maxAggPayload (memcpy s d sr n) = maxAggPayload s"
  by (simp add: memcpy_def)

lemma sf_realloc_mono:
  assumes "sf_realloc cfg s pp rsize = Some (Ret (p, t))"
  shows "maxAggPayload s \<le> maxAggPayload t"
proof (cases "rsize = 0")
  case True
  with assms show ?thesis
    by (auto simp add: sf_realloc_def sf_free_kept split: outcome.splits)
next
  case False
  with assms obtain block where v: "verifyPointer cfg s pp = Ret block"
    by (auto simp add: sf_realloc_def split: outcome.splits)
  define s1 where "s1 = fold (verifyFreeListLinks cfg) [0 ..< NUM_FREE_LISTS cfg] s"
  have k1: "maxAggPayload s1 = maxAggPayload s" unfolding s1_def by (simp add: fold_verify_kept)
  have fin: "mem_only s1 u \<Longrightarrow> maxAggPayload s \<le> maxAggPayload u" for u
    using k1 by (simp add: mem_only_iff)
  show ?thesis
  proof (cases "block = 0 \<or> effective_size rsize < rsize")
    case True
    with assms False v k1 show ?thesis
      unfolding sf_realloc_def Let_def s1_def [symmetric] by (auto split: if_splits)
  next
    case nr: False
    show ?thesis
    proof (cases "effective_size rsize > GET_B_SIZE cfg s1 block")
      case True
      with assms False v nr obtain q s2 where
        m: "sf_malloc cfg s1 rsize = Some (q, s2)"
        and r: "(if q = 0 then Some (Ret (0, s2))
                 else (case sf_free cfg (memcpy s2 q pp (unat rsize)) pp of
                         Aborted \<Rightarrow> Some Aborted
                       | Ret s3 \<Rightarrow> Some (Ret (q, s3)))) = Some (Ret (p, t))"
        unfolding sf_realloc_def Let_def s1_def [symmetric]
        by (auto split: Option.bind_splits)
      from observed_or_kept_mono [OF sf_malloc_step [OF m]] k1
      have k2: "maxAggPayload s \<le> maxAggPayload s2" by simp
      show ?thesis
      proof (cases "q = 0")
        case True
        with r k2 show ?thesis by simp
      next
        case False
        with r have "sf_free cfg (memcpy s2 q pp (unat rsize)) pp = Ret t"
          by (auto split: outcome.splits)
        from sf_free_kept [OF this] k2 show ?thesis by (simp add: memcpy_kept)
      qed
    next
      case False
      with assms \<open>rsize \<noteq> 0\<close> v nr have
        "t = set_header s1 block
               ((push_bit 32 (ucast rsize) OR ucast (GET_B_SIZE cfg s1 block) OR THIS_BLOCK_ALLOCATED
                   OR GET_PREV_ALLOCD cfg s1 block) XOR MAGIC cfg)
         \<or> t = splitBlock cfg s1 block (push_bit 32 (ucast rsize)) (effective_size rsize)
                 (GET_B_SIZE cfg s1 block - effective_size rsize)"
        unfolding sf_realloc_def Let_def s1_def [symmetric]
        by (auto split: if_splits)
      then have "mem_only s1 t"
        by (auto intro: mem_only_step mem_only_splitBlock)
      then show ?thesis by (rule fin)
    qed
  qed
qed

lemma heap_size_zero:
  "(real (unat (mem_end s - heap_start cfg)) = 0) = (heap_start cfg = mem_end s)"
proof -
  have "(real (unat (mem_end s - heap_start cfg)) = 0) = (mem_end s - heap_start cfg = 0)"
    by (simp add: unsigned_eq_0_iff)
  also have "\<dots> = (heap_start cfg = mem_end s)" by auto
  finally show ?thesis .
qed

lemma sf_peak_utilization_result:
  assumes "sf_peak_utilization cfg s = Some (u, t)"
  shows "observed_or_kept cfg s t \<and> t\<lparr>maxAggPayload := maxAggPayload s\<rparr> = s
         \<and> u = (if heap_start cfg = mem_end s then 0
                 else maxAggPayload t / real (unat (mem_end s - heap_start cfg)))"
proof (cases "heap_start cfg = mem_end s")
  case True
  with assms show ?thesis
    by (auto simp add: sf_peak_utilization_def Let_def kept_observed)
next
  case False
  with assms have "updateMaxAggPayload cfg s = Some t"
    and "u = maxAggPayload t / real (unat (mem_end s - heap_start cfg))"
    using heap_size_zero [of s cfg]
    by (auto simp add: sf_peak_utilization_def Let_def split: Option.bind_splits if_splits)
  with updateMaxAggPayload_result [of cfg s t] False show ?thesis by simp
qed

lemma run_call_mono: "run_call cfg s c = Some t \<Longrightarrow> maxAggPayload s \<le> maxAggPayload t"
proof (cases c)
  case (Malloc sz)
  assume "run_call cfg s c = Some t"
  with Malloc show ?thesis
    using sf_malloc_step [of cfg s sz _ t] by (auto dest: observed_or_kept_mono)
next
  case (Free pp)
  assume "run_call cfg s c = Some t"
  with Free show ?thesis
    using sf_free_kept [of cfg s pp t] by (auto split: outcome.splits)
next
  case (Realloc pp rsize)
  assume "run_call cfg s c = Some t"
  with Realloc show ?thesis
    using sf_realloc_mono [of cfg s pp rsize _ t]
    by (auto split: option.splits outcome.splits)
next
  case Peak
  assume "run_call cfg s c = Some t"
  with Peak show ?thesis
    using sf_peak_utilization_result [of cfg s _ t] by (auto dest: observed_or_kept_mono)
qed

lemma run_calls_mono: "run_calls cfg s cs = Some t \<Longrightarrow> maxAggPayload s \<le> maxAggPayload t"
proof (induction cs arbitrary: s)
  case Nil
  then show ?case by simp
next
  case (Cons c cs)
  then obtain s1 where a: "run_call cfg s c = Some s1" and b: "run_calls cfg s1 cs = Some t"
    by (auto split: Option.bind_splits)
  from run_call_mono [OF a] Cons.IH [OF b] show ?case by simp
qed

subsection \<open>The effective size\<close>

lemma unat_16_minus: "unat (16 - (x :: 32 word) mod 16) = 16 - unat x mod 16"
proof -
  have "x mod 16 \<le> 16" 
    by (simp add: word_le_nat_alt unat_mod) 
  then have "unat (16 - x mod 16) = unat (16 :: 32 word) - unat (x mod 16)"
    by (rule unat_sub)
  then show ?thesis by (simp add: unat_mod)
qed

lemma unat_pad: "unat ((16 - (x :: 32 word) mod 16) mod 16) = (16 - unat x mod 16) mod 16"
  by (simp add: unat_mod unat_16_minus)

lemma roundup16: "(k::nat) + (16 - k mod 16) mod 16 = ((k + 15) div 16) * 16"
proof -
  define q m where "q = k div 16" and "m = k mod 16"
  have k: "k = q * 16 + m" and m: "m < 16" by (simp_all add: q_def m_def)
  have km: "k mod 16 = m" by (simp add: m_def)
  show ?thesis
  proof (cases "m = 0")
    case True
    have "(k + 15) div 16 = q" unfolding k True by simp
    then show ?thesis using True k by (simp add: km)
  next
    case False
    have "(q * 16 + (m + 15)) div 16 = q + (m + 15) div 16"
      by (simp only: div_mult_self3 [of 16 q "m + 15"] add.commute)
    moreover have "(m + 15) div 16 = 1" using False m by simp
    ultimately have "(k + 15) div 16 = q + 1" unfolding k by (simp add: add.assoc)
    moreover have "(16 - m) mod 16 = 16 - m" using False by simp
    ultimately show ?thesis using k m by (simp add: km)
  qed
qed

lemma unat_padded:
  "unat ((x :: 32 word) + (16 - x mod 16) mod 16) = (((unat x + 15) div 16) * 16) mod 4294967296"
  by (simp add: unat_word_ariths(1) unat_pad roundup16)

lemma effective_size_unat:
  "unat (effective_size sz) =
     (if (((unat (sz + 8) + 15) div 16) * 16) mod 4294967296 < 32 then 32
      else (((unat (sz + 8) + 15) div 16) * 16) mod 4294967296)"
  unfolding effective_size_def Let_def BLOCK_ALIGN_def MIN_BLOCK_SIZE_def
  by (simp add: word_less_nat_alt unat_padded)

lemma effective_size_no_wrap:
  assumes "unat sz \<le> 0xFFFFFFE8"
  shows "unat (effective_size sz) = max 32 (((unat sz + 8 + 15) div 16) * 16)
         \<and> \<not> effective_size sz < sz"
proof -
  define n where "n = unat sz"
  have n: "n \<le> 4294967272" using assms by (simp add: n_def)
  have e0: "unat (sz + 8) = n + 8"
    using n by (simp add: unat_word_ariths n_def)
  have "(n + 8 + 15) div 16 \<le> 268435455" using n by simp
  then have le: "((n + 8 + 15) div 16) * 16 \<le> 4294967280" by simp
  then have md: "(((n + 8 + 15) div 16) * 16) mod 4294967296 = ((n + 8 + 15) div 16) * 16"
    by simp
  have ge: "n \<le> ((n + 8 + 15) div 16) * 16"
    using roundup16 [of "n + 8"] by simp
  have u: "unat (effective_size sz) = max 32 (((n + 8 + 15) div 16) * 16)"
    unfolding effective_size_unat e0 md by (simp add: max_def)
  then have "n \<le> unat (effective_size sz)" using ge by simp
  then have "\<not> effective_size sz < sz" by (simp add: word_less_nat_alt n_def)
  with u show ?thesis by (simp add: n_def)
qed

lemma effective_size_wrap:
  assumes "0xFFFFFFE8 < unat sz"
  shows "effective_size sz = 32 \<and> effective_size sz < sz"
proof -
  define n where "n = unat sz"
  have lo: "4294967272 < n" using assms by (simp add: n_def)
  have hi: "n < 4294967296" using unsigned_less [of sz, where 'a = nat] by (simp add: n_def)
  have e0: "unat (sz + 8) = (n + 8) mod 4294967296"
    by (simp add: unat_word_ariths n_def)
  have small: "(((unat (sz + 8) + 15) div 16) * 16) mod 4294967296 < 32"
  proof (cases "n + 8 < 4294967296")
    case True
    then have "unat (sz + 8) = n + 8" by (simp add: e0)
    moreover have "(n + 8 + 15) div 16 = 268435456" using lo True by simp
    ultimately show ?thesis by simp
  next
    case False
    then have "unat (sz + 8) = n + 8 - 4294967296"
      using hi by (simp add: e0 mod_if)
    moreover have "n + 8 - 4294967296 < 8" using hi by simp
    ultimately have "unat (sz + 8) + 15 < 32" by simp
    then have "(unat (sz + 8) + 15) div 16 \<le> 1" by simp
    then have "((unat (sz + 8) + 15) div 16) * 16 \<le> 16" by simp
    then show ?thesis by simp
  qed
  then have u: "unat (effective_size sz) = 32" by (simp add: effective_size_unat)
  then have "word_of_nat (unat (effective_size sz)) = (word_of_nat 32 :: 32 word)" by simp
  then have "effective_size sz = 32" by simp
  with lo show ?thesis by (simp add: word_less_nat_alt n_def)
qed

subsection \<open>Properties of the public operations on every state\<close>

lemma verifyFreeListLinks_linked:
  "links_next s (fl_head cfg c) \<noteq> 0 \<Longrightarrow> links_prev s (fl_head cfg c) \<noteq> 0 \<Longrightarrow>
   verifyFreeListLinks cfg c s = s"
  by (simp add: verifyFreeListLinks_def)

lemma fold_verify_linked:
  "list_all (\<lambda>c. links_next s (fl_head cfg c) \<noteq> 0 \<and> links_prev s (fl_head cfg c) \<noteq> 0) cs \<Longrightarrow>
   fold (verifyFreeListLinks cfg) cs s = s"
  by (induction cs) (simp_all add: verifyFreeListLinks_linked)

lemma sf_malloc_rollover:
  assumes "effective_size sz < sz"
  shows "\<exists>t. sf_malloc cfg s sz = Some (0, t) \<and> ql_length t = ql_length s
             \<and> ql_first t = ql_first s \<and> maxAggPayload t = maxAggPayload s
             \<and> (heap_start cfg \<noteq> mem_end s \<and> heads_linked cfg s \<longrightarrow> t = s)"
proof -
  from assms have nz: "sz \<noteq> 0" by auto
  define s1 where "s1 = fold (verifyFreeListLinks cfg) [0 ..< NUM_FREE_LISTS cfg] s"
  have k1: "maxAggPayload s1 = maxAggPayload s" "ql_length s1 = ql_length s"
    "ql_first s1 = ql_first s" "mem_end s1 = mem_end s"
    unfolding s1_def by (simp_all add: fold_verify_kept)
  have same: "heads_linked cfg s \<Longrightarrow> s1 = s"
    unfolding s1_def heads_linked_def by (rule fold_verify_linked)
  obtain r s2 where i: "(if heap_start cfg = mem_end s1 then initializeHeap cfg s1 else (1, s1)) = (r, s2)"
    by (cases "if heap_start cfg = mem_end s1 then initializeHeap cfg s1 else (1, s1)")
  have k2: "maxAggPayload s2 = maxAggPayload s" "ql_length s2 = ql_length s"
    "ql_first s2 = ql_first s"
    using i k1 initializeHeap_kept [of cfg s1] by (auto split: if_splits)
  have un: "heap_start cfg \<noteq> mem_end s \<Longrightarrow> r = 1 \<and> s2 = s1"
    using i k1 by simp
  have "sf_malloc cfg s sz =
          (case (if heap_start cfg = mem_end s1 then initializeHeap cfg s1 else (1, s1)) of
             (r, s2) \<Rightarrow>
               if r < 0 then Some (0, s2\<lparr>sf_errno := ENOMEM\<rparr>)
               else if effective_size sz < sz then Some (0, s2)
               else malloc_place cfg s2 sz (effective_size sz))"
    using nz unfolding s1_def by (simp add: sf_malloc_def Let_def)
  then have "sf_malloc cfg s sz = Some (0, if r < 0 then s2\<lparr>sf_errno := ENOMEM\<rparr> else s2)"
    unfolding i using assms by simp
  then show ?thesis
    using k2 un same by auto
qed

lemma only_null_links_set_refl: "only_null_links_set cfg s s"
  by (simp add: only_null_links_set_def)

lemma only_null_links_set_row:
  assumes "only_null_links_set cfg s t" and "c < NUM_FREE_LISTS cfg"
    and "a = fl_head cfg c + 16 \<or> a = fl_head cfg c + 24" and "mem t a = 0"
  shows "only_null_links_set cfg s (t\<lparr>mem := (mem t)(a := fl_head cfg c)\<rparr>)"
proof -
  from assms(1) have mo: "mem_only s t"
    and rows: "\<And>b. mem t b = mem s b
                 \<or> (mem s b = 0
                    \<and> (\<exists>c. c < NUM_FREE_LISTS cfg
                            \<and> (b = fl_head cfg c + 16 \<or> b = fl_head cfg c + 24)
                            \<and> mem t b = fl_head cfg c))"
    by (auto simp add: only_null_links_set_def)
  from rows [of a] assms(4) have z: "mem s a = 0" by auto
  have "mem_only s (t\<lparr>mem := (mem t)(a := fl_head cfg c)\<rparr>)"
    using mo by (simp add: mem_only_iff)
  moreover have "(if b = a then fl_head cfg c else mem t b) = mem s b
                 \<or> (mem s b = 0
                    \<and> (\<exists>c'. c' < NUM_FREE_LISTS cfg
                            \<and> (b = fl_head cfg c' + 16 \<or> b = fl_head cfg c' + 24)
                            \<and> (if b = a then fl_head cfg c else mem t b) = fl_head cfg c'))" for b
  proof (cases "b = a")
    case True
    with z assms(2,3) show ?thesis by auto
  next
    case False
    with rows [of b] show ?thesis by simp
  qed
  ultimately show ?thesis by (simp add: only_null_links_set_def)
qed

lemma only_null_links_set_verify:
  assumes "only_null_links_set cfg s t" and "c < NUM_FREE_LISTS cfg"
  shows "only_null_links_set cfg s (verifyFreeListLinks cfg c t)"
proof -
  define t1 where "t1 = (if links_next t (fl_head cfg c) = 0
                         then set_links_next t (fl_head cfg c) (fl_head cfg c) else t)"
  have 1: "only_null_links_set cfg s t1"
    unfolding t1_def set_links_next_def links_next_def
    using only_null_links_set_row [OF assms, of "fl_head cfg c + 16"] assms(1) by simp
  have 2: "only_null_links_set cfg s
          (if links_prev t1 (fl_head cfg c) = 0
           then set_links_prev t1 (fl_head cfg c) (fl_head cfg c) else t1)"
    unfolding set_links_prev_def links_prev_def
    using only_null_links_set_row [OF 1 assms(2), of "fl_head cfg c + 24"] 1 by simp
  have "verifyFreeListLinks cfg c t
        = (if links_prev t1 (fl_head cfg c) = 0
           then set_links_prev t1 (fl_head cfg c) (fl_head cfg c) else t1)"
    by (simp only: verifyFreeListLinks_def Let_def t1_def)
  with 2 show ?thesis by simp
qed

lemma only_null_links_set_fold:
  "only_null_links_set cfg s t \<Longrightarrow> \<forall>c\<in>set cs. c < NUM_FREE_LISTS cfg \<Longrightarrow>
   only_null_links_set cfg s (fold (verifyFreeListLinks cfg) cs t)"
  by (induction cs arbitrary: t) (simp_all add: only_null_links_set_verify)

lemma verifyFreeListLinks_nonzero_kept:
  "fl_head cfg c \<noteq> 0 \<Longrightarrow> mem s a \<noteq> 0 \<Longrightarrow> mem (verifyFreeListLinks cfg c s) a \<noteq> 0"
  by (simp add: verifyFreeListLinks_def Let_def set_links_next_def set_links_prev_def
      links_next_def links_prev_def)

lemma verifyFreeListLinks_links:
  "fl_head cfg c \<noteq> 0 \<Longrightarrow>
   mem (verifyFreeListLinks cfg c s) (fl_head cfg c + 16) \<noteq> 0
   \<and> mem (verifyFreeListLinks cfg c s) (fl_head cfg c + 24) \<noteq> 0"
  by (simp add: verifyFreeListLinks_def Let_def set_links_next_def set_links_prev_def
      links_next_def links_prev_def)

lemma fold_verify_nonzero_kept:
  "\<forall>c\<in>set cs. fl_head cfg c \<noteq> 0 \<Longrightarrow> mem s a \<noteq> 0 \<Longrightarrow>
   mem (fold (verifyFreeListLinks cfg) cs s) a \<noteq> 0"
  by (induction cs arbitrary: s) (simp_all add: verifyFreeListLinks_nonzero_kept)

lemma fold_verify_links:
  "\<forall>c\<in>set cs. fl_head cfg c \<noteq> 0 \<Longrightarrow> c \<in> set cs \<Longrightarrow>
   mem (fold (verifyFreeListLinks cfg) cs s) (fl_head cfg c + 16) \<noteq> 0
   \<and> mem (fold (verifyFreeListLinks cfg) cs s) (fl_head cfg c + 24) \<noteq> 0"
proof (induction cs arbitrary: s)
  case Nil
  then show ?case by simp
next
  case (Cons d cs)
  show ?case
  proof (cases "c \<in> set cs")
    case True
    with Cons show ?thesis by simp
  next
    case False
    with Cons.prems have d: "d = c" and nz: "fl_head cfg c \<noteq> 0"
      and all: "\<forall>c\<in>set cs. fl_head cfg c \<noteq> 0" by auto
    from verifyFreeListLinks_links [OF nz, of s] fold_verify_nonzero_kept [OF all]
    show ?thesis by (simp add: d)
  qed
qed

lemma fold_verify_heads_linked:
  assumes "\<forall>c<NUM_FREE_LISTS cfg. fl_head cfg c \<noteq> 0"
  shows "heads_linked cfg (fold (verifyFreeListLinks cfg) [0 ..< NUM_FREE_LISTS cfg] s)"
  using assms fold_verify_links [of "[0 ..< NUM_FREE_LISTS cfg]" cfg _ s]
  by (simp add: heads_linked_def list_all_iff links_next_def links_prev_def)

lemma initializeHeap_no_page:
  "unat (mem_end s) + unat (PAGE_SZ cfg) > unat (heap_limit cfg) \<Longrightarrow>
   initializeHeap cfg s = (-1, s)"
  by (simp add: initializeHeap_def sf_mem_grow_def)

lemma initializeHeap_page:
  assumes "unat (mem_end s) + unat (PAGE_SZ cfg) \<le> unat (heap_limit cfg)"
    and "mem_end s \<noteq> 0"
  shows "fst (initializeHeap cfg s) = 1
         \<and> mem_end (snd (initializeHeap cfg s)) = mem_end s + PAGE_SZ cfg
         \<and> sf_errno (snd (initializeHeap cfg s)) = sf_errno s"
proof -
  define s0 where "s0 = s\<lparr>mem_end := mem_end s + PAGE_SZ cfg\<rparr>"
  have g: "sf_mem_grow cfg s = (mem_end s, s0)"
    using assms(1) by (simp add: sf_mem_grow_def s0_def)
  have fin: "\<And>t. mem_only s0 t \<Longrightarrow> mem_end t = mem_end s + PAGE_SZ cfg \<and> sf_errno t = sf_errno s"
    by (simp add: mem_only_iff s0_def)
  show ?thesis
    unfolding initializeHeap_def g
    using assms(2)
    by (auto simp add: Let_def intro!: fin [THEN conjunct1] fin [THEN conjunct2]
        mem_only_step mem_only_insertIntoFreeList)
qed

lemma sf_malloc_rollover_state:
  assumes "effective_size sz < sz"
  shows "\<exists>s1 t. sf_malloc cfg s sz = Some (0, t)
           \<and> only_null_links_set cfg s s1
           \<and> ((\<forall>c<NUM_FREE_LISTS cfg. fl_head cfg c \<noteq> 0) \<longrightarrow> heads_linked cfg s1)
           \<and> (heads_linked cfg s \<longrightarrow> s1 = s)
           \<and> (heap_start cfg \<noteq> mem_end s \<longrightarrow> t = s1)
           \<and> (heap_start cfg = mem_end s
                \<and> unat (heap_limit cfg) < unat (heap_start cfg) + unat (PAGE_SZ cfg) \<longrightarrow>
                t = s1\<lparr>sf_errno := ENOMEM\<rparr>)
           \<and> (heap_start cfg = mem_end s
                \<and> unat (heap_start cfg) + unat (PAGE_SZ cfg) \<le> unat (heap_limit cfg)
                \<and> heap_start cfg \<noteq> 0 \<longrightarrow>
                t = snd (initializeHeap cfg s1) \<and> mem_end t = heap_start cfg + PAGE_SZ cfg
                \<and> sf_errno t = sf_errno s)"
proof -
  from assms have nz: "sz \<noteq> 0" by auto
  define s1 where "s1 = fold (verifyFreeListLinks cfg) [0 ..< NUM_FREE_LISTS cfg] s"
  have k1: "mem_end s1 = mem_end s" "sf_errno s1 = sf_errno s"
    unfolding s1_def by (simp_all add: fold_verify_kept)
  have same: "heads_linked cfg s \<Longrightarrow> s1 = s"
    unfolding s1_def heads_linked_def by (rule fold_verify_linked)
  have ls: "only_null_links_set cfg s s1"
    unfolding s1_def by (rule only_null_links_set_fold [OF only_null_links_set_refl]) simp
  have hl: "(\<forall>c<NUM_FREE_LISTS cfg. fl_head cfg c \<noteq> 0) \<Longrightarrow> heads_linked cfg s1"
    unfolding s1_def by (rule fold_verify_heads_linked)
  obtain r s2 where i: "(if heap_start cfg = mem_end s1 then initializeHeap cfg s1 else (1, s1)) = (r, s2)"
    by (cases "if heap_start cfg = mem_end s1 then initializeHeap cfg s1 else (1, s1)")
  define t where "t = (if r < 0 then s2\<lparr>sf_errno := ENOMEM\<rparr> else s2)"
  have "sf_malloc cfg s sz =
          (case (if heap_start cfg = mem_end s1 then initializeHeap cfg s1 else (1, s1)) of
             (r, s2) \<Rightarrow>
               if r < 0 then Some (0, s2\<lparr>sf_errno := ENOMEM\<rparr>)
               else if effective_size sz < sz then Some (0, s2)
               else malloc_place cfg s2 sz (effective_size sz))"
    using nz unfolding s1_def by (simp add: sf_malloc_def Let_def)
  then have res: "sf_malloc cfg s sz = Some (0, t)"
    unfolding i t_def using assms by simp
  have c1: "heap_start cfg \<noteq> mem_end s \<Longrightarrow> t = s1"
    using i k1 by (simp add: t_def)
  have c2: "t = s1\<lparr>sf_errno := ENOMEM\<rparr>"
    if "heap_start cfg = mem_end s"
      and "unat (heap_limit cfg) < unat (heap_start cfg) + unat (PAGE_SZ cfg)"
  proof -
    from that k1 have "initializeHeap cfg s1 = (-1, s1)"
      by (intro initializeHeap_no_page) simp
    with i that k1 show ?thesis by (simp add: t_def)
  qed
  have c3: "t = snd (initializeHeap cfg s1) \<and> mem_end t = heap_start cfg + PAGE_SZ cfg
            \<and> sf_errno t = sf_errno s"
    if "heap_start cfg = mem_end s"
      and "unat (heap_start cfg) + unat (PAGE_SZ cfg) \<le> unat (heap_limit cfg)"
      and "heap_start cfg \<noteq> 0"
  proof -
    from that k1 have "unat (mem_end s1) + unat (PAGE_SZ cfg) \<le> unat (heap_limit cfg)"
      and "mem_end s1 \<noteq> 0" by simp_all
    from initializeHeap_page [OF this] i that k1 show ?thesis by (auto simp add: t_def)
  qed
  from res ls hl same c1 c2 c3 show ?thesis by blast
qed

text \<open>Claim C4, as the code has it. Without wrap-around (requests of at most
  \<open>0xFFFFFFE8\<close> bytes) the effective size is \<open>max(32, align16(size + 8))\<close> and passes the
  rollover test; every larger request fails it. \<^verbatim>\<open>sf_malloc(0)\<close> returns NULL and changes
  nothing. A request that fails the rollover test returns NULL after the two steps that
  come before the test. First the free-list heads are linked (state \<open>s1\<close>): only NULL link
  fields of free-list heads change, each to the address of its head, so that every head is
  linked where no head lies at address 0, and nothing changes where every head was linked
  already. Then, on an empty heap only, \<^verbatim>\<open>initializeHeap\<close> runs on \<open>s1\<close>: where a page can
  be had (and the heap does not start at address 0) the heap has its first page afterwards;
  where none can be had only \<^verbatim>\<open>sf_errno\<close> changes, to \<^verbatim>\<open>ENOMEM\<close>. Quick lists and the peak statistic are never touched, and on a heap that is not
  empty and has every head linked the state is unchanged.\<close>

theorem sf_malloc_effective_size_rollover:
  "(unat sz \<le> 0xFFFFFFE8 \<longrightarrow>
      unat (effective_size sz) = max 32 (((unat sz + 8 + 15) div 16) * 16)
      \<and> \<not> effective_size sz < sz)
   \<and> (0xFFFFFFE8 < unat sz \<longrightarrow> effective_size sz < sz)
   \<and> sf_malloc cfg s 0 = Some (0, s)
   \<and> (effective_size sz < sz \<longrightarrow>
        (\<exists>s1 t. sf_malloc cfg s sz = Some (0, t)
           \<and> only_null_links_set cfg s s1
           \<and> ((\<forall>c<NUM_FREE_LISTS cfg. fl_head cfg c \<noteq> 0) \<longrightarrow> heads_linked cfg s1)
           \<and> (heads_linked cfg s \<longrightarrow> s1 = s)
           \<and> (heap_start cfg \<noteq> mem_end s \<longrightarrow> t = s1)
           \<and> (heap_start cfg = mem_end s
                \<and> unat (heap_limit cfg) < unat (heap_start cfg) + unat (PAGE_SZ cfg) \<longrightarrow>
                t = s1\<lparr>sf_errno := ENOMEM\<rparr>)
           \<and> (heap_start cfg = mem_end s
                \<and> unat (heap_start cfg) + unat (PAGE_SZ cfg) \<le> unat (heap_limit cfg)
                \<and> heap_start cfg \<noteq> 0 \<longrightarrow>
                t = snd (initializeHeap cfg s1) \<and> mem_end t = heap_start cfg + PAGE_SZ cfg
                \<and> sf_errno t = sf_errno s)
           \<and> ql_length t = ql_length s \<and> ql_first t = ql_first s
           \<and> maxAggPayload t = maxAggPayload s
           \<and> (heap_start cfg \<noteq> mem_end s \<and> heads_linked cfg s \<longrightarrow> t = s)))"
proof -
  have z: "sf_malloc cfg s 0 = Some (0, s)" by (simp add: sf_malloc_def)
  have r: "\<exists>s1 t. sf_malloc cfg s sz = Some (0, t)
           \<and> only_null_links_set cfg s s1
           \<and> ((\<forall>c<NUM_FREE_LISTS cfg. fl_head cfg c \<noteq> 0) \<longrightarrow> heads_linked cfg s1)
           \<and> (heads_linked cfg s \<longrightarrow> s1 = s)
           \<and> (heap_start cfg \<noteq> mem_end s \<longrightarrow> t = s1)
           \<and> (heap_start cfg = mem_end s
                \<and> unat (heap_limit cfg) < unat (heap_start cfg) + unat (PAGE_SZ cfg) \<longrightarrow>
                t = s1\<lparr>sf_errno := ENOMEM\<rparr>)
           \<and> (heap_start cfg = mem_end s
                \<and> unat (heap_start cfg) + unat (PAGE_SZ cfg) \<le> unat (heap_limit cfg)
                \<and> heap_start cfg \<noteq> 0 \<longrightarrow>
                t = snd (initializeHeap cfg s1) \<and> mem_end t = heap_start cfg + PAGE_SZ cfg
                \<and> sf_errno t = sf_errno s)
           \<and> ql_length t = ql_length s \<and> ql_first t = ql_first s
           \<and> maxAggPayload t = maxAggPayload s
           \<and> (heap_start cfg \<noteq> mem_end s \<and> heads_linked cfg s \<longrightarrow> t = s)"
    if w: "effective_size sz < sz"
  proof -
    from sf_malloc_rollover_state [OF w, of cfg s] obtain s1 t where
      a: "sf_malloc cfg s sz = Some (0, t)"
      and b: "only_null_links_set cfg s s1"
        "(\<forall>c<NUM_FREE_LISTS cfg. fl_head cfg c \<noteq> 0) \<longrightarrow> heads_linked cfg s1"
        "heads_linked cfg s \<longrightarrow> s1 = s"
        "heap_start cfg \<noteq> mem_end s \<longrightarrow> t = s1"
        "heap_start cfg = mem_end s
           \<and> unat (heap_limit cfg) < unat (heap_start cfg) + unat (PAGE_SZ cfg) \<longrightarrow>
         t = s1\<lparr>sf_errno := ENOMEM\<rparr>"
        "heap_start cfg = mem_end s
           \<and> unat (heap_start cfg) + unat (PAGE_SZ cfg) \<le> unat (heap_limit cfg)
           \<and> heap_start cfg \<noteq> 0 \<longrightarrow>
         t = snd (initializeHeap cfg s1) \<and> mem_end t = heap_start cfg + PAGE_SZ cfg
         \<and> sf_errno t = sf_errno s"
      by blast
    from sf_malloc_rollover [OF w, of cfg s] a
    have k: "ql_length t = ql_length s" "ql_first t = ql_first s"
      "maxAggPayload t = maxAggPayload s"
      "heap_start cfg \<noteq> mem_end s \<and> heads_linked cfg s \<longrightarrow> t = s"
      by auto
    from a b k show ?thesis by blast
  qed
  show ?thesis
    using effective_size_no_wrap [of sz] effective_size_wrap [of sz] z r
    by blast
qed

subsection \<open>The heap walk on a tiled heap\<close>

lemma walk_blocks_aggPayload:
  "walk_blocks fuel cfg s cur epilogue = Some bs \<Longrightarrow>
   aggPayload_loop cfg s cur epilogue acc = Some (acc + spec_aggregate_payload cfg s bs)"
proof (induction fuel arbitrary: cur bs acc)
  case 0
  then show ?case by simp
next
  case (Suc fuel)
  show ?case
  proof (cases "cur = epilogue")
    case True
    with Suc.prems have "bs = []" by simp
    with True show ?thesis
      by (subst aggPayload_loop.simps) (simp add: spec_aggregate_payload_def)
  next
    case False
    with Suc.prems have le: "\<not> cur > epilogue" by (auto split: if_splits)
    with False have lt: "cur < epilogue" by simp
    from Suc.prems False le obtain bs' where
      w: "walk_blocks fuel cfg s (NEXT_BLOCK cfg s cur) epilogue = Some bs'"
      and bs: "bs = cur # bs'"
      by (auto split: if_splits)
    note ih = Suc.IH [OF w]
    show ?thesis
      by (subst aggPayload_loop.simps) (simp add: lt ih bs spec_aggregate_payload_def)
  qed
qed

lemma aggPayload_now_tiled:
  "heap_blocks cfg s = Some bs \<Longrightarrow> aggPayload_now cfg s = Some (spec_aggregate_payload cfg s bs)"
  unfolding heap_blocks_def aggPayload_now_def
  by (drule walk_blocks_aggPayload [where acc = 0]) simp

lemma updateMaxAggPayload_tiled:
  assumes "heap_blocks cfg s = Some bs" and "heap_start cfg \<noteq> mem_end s"
  shows "updateMaxAggPayload cfg s
         = Some (s\<lparr>maxAggPayload := max (maxAggPayload s) (spec_aggregate_payload cfg s bs)\<rparr>)"
  using assms by (simp add: updateMaxAggPayload_def aggPayload_now_tiled max_def)

lemma sf_peak_utilization_empty:
  "heap_start cfg = mem_end s \<Longrightarrow> sf_peak_utilization cfg s = Some (0, s)"
  by (simp add: sf_peak_utilization_def)

lemma sf_peak_utilization_tiled:
  assumes "heap_blocks cfg s = Some bs" and "heap_start cfg \<noteq> mem_end s"
  shows "sf_peak_utilization cfg s
         = Some (max (maxAggPayload s) (spec_aggregate_payload cfg s bs)
                   / real (unat (mem_end s - heap_start cfg)),
                 s\<lparr>maxAggPayload := max (maxAggPayload s) (spec_aggregate_payload cfg s bs)\<rparr>)"
  using assms heap_size_zero [of s cfg]
  by (simp add: sf_peak_utilization_def updateMaxAggPayload_tiled Let_def)

lemma heap_blocks_nonempty: "heap_blocks cfg s = Some bs \<Longrightarrow> heap_start cfg \<noteq> mem_end s"
  by (auto simp add: heap_blocks_def)

lemma sf_peak_utilization_returns:
  assumes "heap_start cfg = mem_end s \<or> heap_blocks cfg s \<noteq> None"
  shows "\<exists>t. sf_peak_utilization cfg s
               = Some (if heap_start cfg = mem_end s then 0
                       else maxAggPayload t / real (unat (mem_end s - heap_start cfg)), t)
             \<and> t = s\<lparr>maxAggPayload := maxAggPayload t\<rparr>
             \<and> maxAggPayload s \<le> maxAggPayload t
             \<and> (\<forall>bs. heap_blocks cfg s = Some bs \<longrightarrow>
                    maxAggPayload t = max (maxAggPayload s) (spec_aggregate_payload cfg s bs))"
proof (cases "heap_start cfg = mem_end s")
  case True
  then have "heap_blocks cfg s = None" using heap_blocks_nonempty [of cfg s] by (cases "heap_blocks cfg s") auto
  with True show ?thesis by (simp add: sf_peak_utilization_empty)
next
  case False
  with assms obtain bs where bs: "heap_blocks cfg s = Some bs" by auto
  from sf_peak_utilization_tiled [OF bs False] False bs show ?thesis by simp
qed


subsection \<open>Evaluation of concrete call sequences\<close>

text \<open>The sequences are evaluated call by call: each call is simplified on the state the
  previous call left.\<close>

lemma walk_blocks_numeral:
  "walk_blocks (numeral k) cfg s cur epilogue =
     (if cur = epilogue then Some []
      else if cur > epilogue \<or> GET_B_SIZE cfg s cur = 0 then None
      else map_option ((#) cur) (walk_blocks (pred_numeral k) cfg s (NEXT_BLOCK cfg s cur) epilogue))"
  by (simp add: numeral_eq_Suc)

lemma bind_weak_cong: "m = m' \<Longrightarrow> Option.bind m f = Option.bind m' f"
  by simp

lemmas sfmm_consts = THIS_BLOCK_ALLOCATED_def PREV_BLOCK_ALLOCATED_def IN_QUICK_LIST_def ROW_SIZE_def
  MIN_BLOCK_SIZE_def BLOCK_ALIGN_def ENOMEM_def cfg0_def fresh_def

lemmas sfmm_fields = prev_footer_def header_def links_next_def links_prev_def set_prev_footer_def
  set_header_def set_links_next_def set_links_prev_def GET_SIZE_def GET_B_SIZE_def
  GET_PREV_ALLOCD_def IS_ALLOCD_def NEXT_BLOCK_S_def NEXT_BLOCK_def PREV_BLOCK_S_def
  PREV_BLOCK_def payload_of_def

lemmas sfmm_lists = bytesToFreeListIndex_def bytesToFreeListIndex_loop.simps fl_head_def
  verifyFreeListLinks_def removeFromFreeList_def insertIntoFreeList_def coalesce_def
  insertIntoQuickList_def getQuickListBlock_def fl_scan.simps getFreeListBlock_loop.simps
  getFreeListBlock_def

lemmas sfmm_calls = sf_mem_grow_def aggPayload_loop.simps aggPayload_now_def
  updateMaxAggPayload_def setPrevAllocd_def initializeHeap_def extendHeap_def splitBlock_def
  effective_size_def malloc_extend_loop.simps malloc_place_def sf_malloc_def verifyPointer_def
  sf_free_def sf_realloc_def memcpy_def sf_peak_utilization_def upt_rec

lemmas sfmm_checks = heap_blocks_def heap_tiled_and_coalesced_def walk_blocks_numeral
  heads_linked_def observed_or_kept_def live_payload_def

text \<open>Claim C4 has \<^verbatim>\<open>sf_malloc\<close> leave the allocator state alone when the size computation
  wraps. The rollover test comes after the initialisation: on a fresh heap a request of
  \<open>0xFFFFFFFF\<close> bytes returns NULL, and the heap has its first page and free list 0 its
  links.\<close>

theorem sf_malloc_rollover_initialises_heap:
  "map_option (\<lambda>(p, t). (p, mem_end t, links_next t (fl_head cfg0 0)))
       (sf_malloc cfg0 (fresh cfg0) 0xFFFFFFFF) = Some (0, 66560, 4096)
   \<and> effective_size 0xFFFFFFFF < 0xFFFFFFFF
   \<and> mem_end (fresh cfg0) = 65536 \<and> links_next (fresh cfg0) (fl_head cfg0 0) = 0"
proof -
  note [simp] = sfmm_consts sfmm_fields sfmm_lists sfmm_calls sfmm_checks
  note [cong] = let_weak_cong bind_weak_cong

  show ?thesis by simp
qed


text \<open>Claim C2 has a quick list hold at most \<^verbatim>\<open>QUICK_LIST_MAX\<close> = 5 blocks: the sixth free of a
  32-byte block flushes the list and leaves one block in it. The test in
  \<^verbatim>\<open>insertIntoQuickList\<close> is \<^verbatim>\<open>length <= QUICK_LIST_MAX\<close>, so the sixth free still pushes:
  after six frees the list holds six blocks.\<close>

theorem six_frees_fill_quick_list:
  "six_frees = Some ([65584, 65616, 65648, 65680, 65712, 65744], [0, 1, 2, 3, 4, 5, 6])"
proof -
  note [simp] = sfmm_consts sfmm_fields sfmm_lists sfmm_calls
  note [cong] = let_weak_cong bind_weak_cong
  define m1 where "m1 = sf_malloc cfg0 (fresh cfg0) 16"
  note d_m1 = m1_def
  note n_m1 = d_m1 [simplified]
  note e_m1 = trans [OF d_m1 [symmetric] n_m1]
  define m2 where "m2 = sf_malloc cfg0 (snd (the m1)) 16"
  note d_m2 = m2_def [unfolded n_m1 option.sel snd_conv fst_conv outcome.case prod.case]
  note n_m2 = d_m2 [simplified]
  note e_m2 = trans [OF d_m2 [symmetric] n_m2]
  define m3 where "m3 = sf_malloc cfg0 (snd (the m2)) 16"
  note d_m3 = m3_def [unfolded n_m2 option.sel snd_conv fst_conv outcome.case prod.case]
  note n_m3 = d_m3 [simplified]
  note e_m3 = trans [OF d_m3 [symmetric] n_m3]
  define m4 where "m4 = sf_malloc cfg0 (snd (the m3)) 16"
  note d_m4 = m4_def [unfolded n_m3 option.sel snd_conv fst_conv outcome.case prod.case]
  note n_m4 = d_m4 [simplified]
  note e_m4 = trans [OF d_m4 [symmetric] n_m4]
  define m5 where "m5 = sf_malloc cfg0 (snd (the m4)) 16"
  note d_m5 = m5_def [unfolded n_m4 option.sel snd_conv fst_conv outcome.case prod.case]
  note n_m5 = d_m5 [simplified]
  note e_m5 = trans [OF d_m5 [symmetric] n_m5]
  define m6 where "m6 = sf_malloc cfg0 (snd (the m5)) 16"
  note d_m6 = m6_def [unfolded n_m5 option.sel snd_conv fst_conv outcome.case prod.case]
  note n_m6 = d_m6 [simplified]
  note e_m6 = trans [OF d_m6 [symmetric] n_m6]
  define f1 where "f1 = run_call cfg0 (snd (the m6)) (Free 65584)"
  note d_f1 = f1_def [unfolded n_m6 option.sel snd_conv fst_conv outcome.case prod.case]
  note n_f1 = d_f1 [simplified]
  note e_f1 = trans [OF d_f1 [symmetric] n_f1]
  define f2 where "f2 = run_call cfg0 (the f1) (Free 65616)"
  note d_f2 = f2_def [unfolded n_f1 option.sel snd_conv fst_conv outcome.case prod.case]
  note n_f2 = d_f2 [simplified]
  note e_f2 = trans [OF d_f2 [symmetric] n_f2]
  define f3 where "f3 = run_call cfg0 (the f2) (Free 65648)"
  note d_f3 = f3_def [unfolded n_f2 option.sel snd_conv fst_conv outcome.case prod.case]
  note n_f3 = d_f3 [simplified]
  note e_f3 = trans [OF d_f3 [symmetric] n_f3]
  define f4 where "f4 = run_call cfg0 (the f3) (Free 65680)"
  note d_f4 = f4_def [unfolded n_f3 option.sel snd_conv fst_conv outcome.case prod.case]
  note n_f4 = d_f4 [simplified]
  note e_f4 = trans [OF d_f4 [symmetric] n_f4]
  define f5 where "f5 = run_call cfg0 (the f4) (Free 65712)"
  note d_f5 = f5_def [unfolded n_f4 option.sel snd_conv fst_conv outcome.case prod.case]
  note n_f5 = d_f5 [simplified]
  note e_f5 = trans [OF d_f5 [symmetric] n_f5]
  define f6 where "f6 = run_call cfg0 (the f5) (Free 65744)"
  note d_f6 = f6_def [unfolded n_f5 option.sel snd_conv fst_conv outcome.case prod.case]
  note n_f6 = d_f6 [simplified]
  note e_f6 = trans [OF d_f6 [symmetric] n_f6]
  show ?thesis
    unfolding six_frees_def
    by (simp only: e_m1 e_m2 e_m3 e_m4 e_m5 e_m6 e_f1 e_f2 e_f3 e_f4 e_f5 e_f6 Option.bind.simps prod.case option.sel) simp
qed

text \<open>Claim C1 has the blocks tile the heap, with no two free neighbours, after every call.
  \<^verbatim>\<open>sf_free\<close> writes the header of the freed block into the \<^verbatim>\<open>prev_footer\<close> of the block
  that \<^verbatim>\<open>coalesce\<close> returns, and \<^verbatim>\<open>coalesce\<close> finds the previous block through
  \<^verbatim>\<open>prev_footer\<close> whether or not that block is free. In the sequence below both
  invariants hold before the last \<^verbatim>\<open>sf_free\<close>; after it the block of \<open>b\<close> is a free block of
  416 bytes that contains the block of \<open>c\<close>, 192 bytes further on and still allocated, and
  the walk from the prologue no longer lands on the epilogue.\<close>

theorem free_block_swallows_live_block:
  "overlap_scenario = Some (True, False, 416, False, 192, True)"
proof -
  note [simp] = sfmm_consts sfmm_fields sfmm_lists sfmm_calls sfmm_checks
  note [cong] = let_weak_cong bind_weak_cong
  define m1 where "m1 = sf_malloc cfg0 (fresh cfg0) 184"
  note d_m1 = m1_def
  note n_m1 = d_m1 [simplified]
  note e_m1 = trans [OF d_m1 [symmetric] n_m1]
  define m2 where "m2 = sf_malloc cfg0 (snd (the m1)) 16"
  note d_m2 = m2_def [unfolded n_m1 option.sel snd_conv fst_conv outcome.case prod.case]
  note n_m2 = d_m2 [simplified]
  note e_m2 = trans [OF d_m2 [symmetric] n_m2]
  define m3 where "m3 = sf_malloc cfg0 (snd (the m2)) 216"
  note d_m3 = m3_def [unfolded n_m2 option.sel snd_conv fst_conv outcome.case prod.case]
  note n_m3 = d_m3 [simplified]
  note e_m3 = trans [OF d_m3 [symmetric] n_m3]
  define m4 where "m4 = sf_malloc cfg0 (snd (the m3)) 16"
  note d_m4 = m4_def [unfolded n_m3 option.sel snd_conv fst_conv outcome.case prod.case]
  note n_m4 = d_m4 [simplified]
  note e_m4 = trans [OF d_m4 [symmetric] n_m4]
  define f5 where "f5 = run_call cfg0 (snd (the m4)) (Free 65808)"
  note d_f5 = f5_def [unfolded n_m4 option.sel snd_conv fst_conv outcome.case prod.case]
  note n_f5 = d_f5 [simplified]
  note e_f5 = trans [OF d_f5 [symmetric] n_f5]
  define f6 where "f6 = run_call cfg0 (the f5) (Free 65584)"
  note d_f6 = f6_def [unfolded n_f5 option.sel snd_conv fst_conv outcome.case prod.case]
  note n_f6 = d_f6 [simplified]
  note e_f6 = trans [OF d_f6 [symmetric] n_f6]
  define m7 where "m7 = sf_malloc cfg0 (the f6) 216"
  note d_m7 = m7_def [unfolded n_f6 option.sel snd_conv fst_conv outcome.case prod.case]
  note n_m7 = d_m7 [simplified]
  note e_m7 = trans [OF d_m7 [symmetric] n_m7]
  define f8 where "f8 = run_call cfg0 (snd (the m7)) (Free 65808)"
  note d_f8 = f8_def [unfolded n_m7 option.sel snd_conv fst_conv outcome.case prod.case]
  note n_f8 = d_f8 [simplified]
  note e_f8 = trans [OF d_f8 [symmetric] n_f8]
  show ?thesis
    unfolding overlap_scenario_def
    by (simp only: e_m1 e_m2 e_m3 e_m4 e_f5 e_f6 e_m7 e_f8 Option.bind.simps prod.case option.sel) simp
qed

text \<open>Claim C10 has \<^verbatim>\<open>maxAggPayload\<close> equal the largest sum, over the observations so far, of
  the payload sizes of the allocated blocks outside the quick lists. The walk of
  \<^verbatim>\<open>updateMaxAggPayload\<close> adds up that sum only while the blocks tile the heap. After the
  eight calls above the block of \<open>b\<close> claims 416 bytes, and the walk steps from it into
  the middle of the block beyond \<open>c\<close> and never meets \<open>c\<close>. A further \<^verbatim>\<open>sf_malloc(440)\<close>
  leaves three allocated blocks with 16 + 16 + 440 = 472 bytes of payload; the walk counts
  0 and \<^verbatim>\<open>maxAggPayload\<close> stays at 432.\<close>

theorem peak_statistic_misses_live_payload:
  "lost_payload_scenario = Some (432, 66064, 432, Some 0, [(True, 16), (True, 16), (True, 440)])"
proof -
  note [simp] = sfmm_consts sfmm_fields sfmm_lists sfmm_calls sfmm_checks
  note [cong] = let_weak_cong bind_weak_cong
  define m1 where "m1 = sf_malloc cfg0 (fresh cfg0) 184"
  note d_m1 = m1_def
  note n_m1 = d_m1 [simplified]
  note e_m1 = trans [OF d_m1 [symmetric] n_m1]
  define m2 where "m2 = sf_malloc cfg0 (snd (the m1)) 16"
  note d_m2 = m2_def [unfolded n_m1 option.sel snd_conv fst_conv outcome.case prod.case]
  note n_m2 = d_m2 [simplified]
  note e_m2 = trans [OF d_m2 [symmetric] n_m2]
  define m3 where "m3 = sf_malloc cfg0 (snd (the m2)) 216"
  note d_m3 = m3_def [unfolded n_m2 option.sel snd_conv fst_conv outcome.case prod.case]
  note n_m3 = d_m3 [simplified]
  note e_m3 = trans [OF d_m3 [symmetric] n_m3]
  define m4 where "m4 = sf_malloc cfg0 (snd (the m3)) 16"
  note d_m4 = m4_def [unfolded n_m3 option.sel snd_conv fst_conv outcome.case prod.case]
  note n_m4 = d_m4 [simplified]
  note e_m4 = trans [OF d_m4 [symmetric] n_m4]
  define f5 where "f5 = run_call cfg0 (snd (the m4)) (Free 65808)"
  note d_f5 = f5_def [unfolded n_m4 option.sel snd_conv fst_conv outcome.case prod.case]
  note n_f5 = d_f5 [simplified]
  note e_f5 = trans [OF d_f5 [symmetric] n_f5]
  define f6 where "f6 = run_call cfg0 (the f5) (Free 65584)"
  note d_f6 = f6_def [unfolded n_f5 option.sel snd_conv fst_conv outcome.case prod.case]
  note n_f6 = d_f6 [simplified]
  note e_f6 = trans [OF d_f6 [symmetric] n_f6]
  define m7 where "m7 = sf_malloc cfg0 (the f6) 216"
  note d_m7 = m7_def [unfolded n_f6 option.sel snd_conv fst_conv outcome.case prod.case]
  note n_m7 = d_m7 [simplified]
  note e_m7 = trans [OF d_m7 [symmetric] n_m7]
  define f8 where "f8 = run_call cfg0 (snd (the m7)) (Free 65808)"
  note d_f8 = f8_def [unfolded n_m7 option.sel snd_conv fst_conv outcome.case prod.case]
  note n_f8 = d_f8 [simplified]
  note e_f8 = trans [OF d_f8 [symmetric] n_f8]
  define m9 where "m9 = sf_malloc cfg0 (the f8) 440"
  note d_m9 = m9_def [unfolded n_f8 option.sel snd_conv fst_conv outcome.case prod.case]
  note n_m9 = d_m9 [simplified]
  note e_m9 = trans [OF d_m9 [symmetric] n_m9]
  show ?thesis
    unfolding lost_payload_scenario_def
    by (simp only: e_m1 e_m2 e_m3 e_m4 e_f5 e_f6 e_m7 e_f8 e_m9 Option.bind.simps prod.case option.sel) simp
qed

text \<open>The first calls on a fresh heap: \<^verbatim>\<open>p = sf_malloc(16)\<close>, then
  \<^verbatim>\<open>sf_peak_utilization()\<close>, \<^verbatim>\<open>sf_free(p)\<close> and \<^verbatim>\<open>sf_peak_utilization()\<close> again. The
  blocks tile the heap after the allocation and after the free.\<close>

lemma first_calls:
  "\<exists>S u1 S1 S2 u2 S3.
      sf_malloc cfg0 (fresh cfg0) 16 = Some (65584, S)
      \<and> heap_start cfg0 \<noteq> mem_end S \<and> heads_linked cfg0 S \<and> heap_blocks cfg0 S \<noteq> None
      \<and> sf_peak_utilization cfg0 S = Some (u1, S1) \<and> u1 = 1 / 64
      \<and> run_call cfg0 S1 (Free 65584) = Some S2 \<and> mem_end S2 = mem_end S
      \<and> heap_blocks cfg0 S2 \<noteq> None
      \<and> sf_peak_utilization cfg0 S2 = Some (u2, S3)"
proof -
  note [simp] = sfmm_consts sfmm_fields sfmm_lists sfmm_calls sfmm_checks
  note [cong] = let_weak_cong bind_weak_cong
  define m1 where "m1 = sf_malloc cfg0 (fresh cfg0) 16"
  note d_m1 = m1_def
  note n_m1 = d_m1 [simplified]
  note e_m1 = trans [OF d_m1 [symmetric] n_m1]
  define p2 where "p2 = sf_peak_utilization cfg0 (snd (the m1))"
  note d_p2 = p2_def [unfolded n_m1 option.sel snd_conv fst_conv outcome.case prod.case]
  note n_p2 = d_p2 [simplified]
  note e_p2 = trans [OF d_p2 [symmetric] n_p2]
  define f3 where "f3 = run_call cfg0 (snd (the p2)) (Free 65584)"
  note d_f3 = f3_def [unfolded n_p2 option.sel snd_conv fst_conv outcome.case prod.case]
  note n_f3 = d_f3 [simplified]
  note e_f3 = trans [OF d_f3 [symmetric] n_f3]
  define p4 where "p4 = sf_peak_utilization cfg0 (the f3)"
  note d_p4 = p4_def [unfolded n_f3 option.sel snd_conv fst_conv outcome.case prod.case]
  note n_p4 = d_p4 [simplified]
  note e_p4 = trans [OF d_p4 [symmetric] n_p4]
  show ?thesis
    by (rule exI conjI e_m1 e_p2 e_f3 e_p4 refl | simp)+
qed


text \<open>The theorem of claim C4 at a request of 900 bytes (no wrap-around: 912) and at a
  request of \<open>0xFFFFFFFF\<close> bytes: on the heap that \<^verbatim>\<open>sf_malloc(16)\<close> has initialised the
  state is the same afterwards; on a fresh heap the heads are linked and the heap has its
  first page; on a fresh heap that cannot grow \<^verbatim>\<open>sf_errno\<close> is set.\<close>

theorem sf_malloc_effective_size_rollover_witness:
  "unat (900 :: sf_size_t) \<le> 0xFFFFFFE8 \<and> unat (effective_size 900) = 912
   \<and> 0xFFFFFFE8 < unat (0xFFFFFFFF :: sf_size_t) \<and> effective_size 0xFFFFFFFF < 0xFFFFFFFF
   \<and> (\<exists>S. sf_malloc cfg0 (fresh cfg0) 16 = Some (65584, S)
           \<and> heap_start cfg0 \<noteq> mem_end S \<and> heads_linked cfg0 S
           \<and> sf_malloc cfg0 S 0xFFFFFFFF = Some (0, S))
   \<and> (\<exists>s1 t. sf_malloc cfg0 (fresh cfg0) 0xFFFFFFFF = Some (0, t)
           \<and> only_null_links_set cfg0 (fresh cfg0) s1 \<and> heads_linked cfg0 s1
           \<and> t = snd (initializeHeap cfg0 s1) \<and> mem_end t = 66560 \<and> sf_errno t = 0)
   \<and> (\<exists>s1 t. sf_malloc (cfg0\<lparr>heap_limit := 65536\<rparr>) (fresh cfg0) 0xFFFFFFFF = Some (0, t)
           \<and> only_null_links_set (cfg0\<lparr>heap_limit := 65536\<rparr>) (fresh cfg0) s1
           \<and> t = s1\<lparr>sf_errno := ENOMEM\<rparr>)"
proof -
  from first_calls obtain S where
    m: "sf_malloc cfg0 (fresh cfg0) 16 = Some (65584, S)"
    and ne: "heap_start cfg0 \<noteq> mem_end S" and hl: "heads_linked cfg0 S"
    by blast
  define big :: sf_size_t where "big = 0xFFFFFFFF"
  define cfg1 where "cfg1 = cfg0\<lparr>heap_limit := 65536\<rparr>"
  define s0 where "s0 = fresh cfg0"
  have a: "unat (900 :: sf_size_t) \<le> 0xFFFFFFE8" by simp
  have b: "0xFFFFFFE8 < unat big" by (simp add: big_def)
  from sf_malloc_effective_size_rollover [of 900 cfg0 S] a
  have c: "unat (effective_size 900) = 912" by simp
  from sf_malloc_effective_size_rollover [of big cfg0 S] b
  have d: "effective_size big < big" by blast
  from sf_malloc_effective_size_rollover [of big cfg0 S] d
  have x1: "\<exists>s1 t. sf_malloc cfg0 S big = Some (0, t)
           \<and> only_null_links_set cfg0 S s1
           \<and> ((\<forall>c<NUM_FREE_LISTS cfg0. fl_head cfg0 c \<noteq> 0) \<longrightarrow> heads_linked cfg0 s1)
           \<and> (heads_linked cfg0 S \<longrightarrow> s1 = S)
           \<and> (heap_start cfg0 \<noteq> mem_end S \<longrightarrow> t = s1)
           \<and> (heap_start cfg0 = mem_end S
                \<and> unat (heap_limit cfg0) < unat (heap_start cfg0) + unat (PAGE_SZ cfg0) \<longrightarrow>
                t = s1\<lparr>sf_errno := ENOMEM\<rparr>)
           \<and> (heap_start cfg0 = mem_end S
                \<and> unat (heap_start cfg0) + unat (PAGE_SZ cfg0) \<le> unat (heap_limit cfg0)
                \<and> heap_start cfg0 \<noteq> 0 \<longrightarrow>
                t = snd (initializeHeap cfg0 s1) \<and> mem_end t = heap_start cfg0 + PAGE_SZ cfg0
                \<and> sf_errno t = sf_errno S)
           \<and> ql_length t = ql_length S \<and> ql_first t = ql_first S
           \<and> maxAggPayload t = maxAggPayload S
           \<and> (heap_start cfg0 \<noteq> mem_end S \<and> heads_linked cfg0 S \<longrightarrow> t = S)" by blast
  with ne hl have d1: "sf_malloc cfg0 S big = Some (0, S)" by blast
  have nz: "\<forall>c<NUM_FREE_LISTS cfg0. fl_head cfg0 c \<noteq> 0"
  proof (intro allI impI)
    fix c assume "c < NUM_FREE_LISTS cfg0"
    then have "c < 10" by (simp add: cfg0_def)
    then have "c \<in> {0, 1, 2, 3, 4, 5, 6, 7, 8, 9}" by auto
    then show "fl_head cfg0 c \<noteq> 0" by (auto simp add: fl_head_def cfg0_def)
  qed
  have e0: "heap_start cfg0 = mem_end s0" by (simp add: fresh_def s0_def)
  have e1: "unat (heap_start cfg0) + unat (PAGE_SZ cfg0) \<le> unat (heap_limit cfg0)"
    "heap_start cfg0 \<noteq> 0" by (simp_all add: cfg0_def)
  have e2: "heap_start cfg0 + PAGE_SZ cfg0 = 66560" "sf_errno s0 = 0"
    by (simp_all add: cfg0_def fresh_def s0_def)
  from sf_malloc_effective_size_rollover [of big cfg0 s0] d
  have x2: "\<exists>s1 t. sf_malloc cfg0 s0 big = Some (0, t)
           \<and> only_null_links_set cfg0 s0 s1
           \<and> ((\<forall>c<NUM_FREE_LISTS cfg0. fl_head cfg0 c \<noteq> 0) \<longrightarrow> heads_linked cfg0 s1)
           \<and> (heads_linked cfg0 s0 \<longrightarrow> s1 = s0)
           \<and> (heap_start cfg0 \<noteq> mem_end s0 \<longrightarrow> t = s1)
           \<and> (heap_start cfg0 = mem_end s0
                \<and> unat (heap_limit cfg0) < unat (heap_start cfg0) + unat (PAGE_SZ cfg0) \<longrightarrow>
                t = s1\<lparr>sf_errno := ENOMEM\<rparr>)
           \<and> (heap_start cfg0 = mem_end s0
                \<and> unat (heap_start cfg0) + unat (PAGE_SZ cfg0) \<le> unat (heap_limit cfg0)
                \<and> heap_start cfg0 \<noteq> 0 \<longrightarrow>
                t = snd (initializeHeap cfg0 s1) \<and> mem_end t = heap_start cfg0 + PAGE_SZ cfg0
                \<and> sf_errno t = sf_errno s0)
           \<and> ql_length t = ql_length s0 \<and> ql_first t = ql_first s0
           \<and> maxAggPayload t = maxAggPayload s0
           \<and> (heap_start cfg0 \<noteq> mem_end s0 \<and> heads_linked cfg0 s0 \<longrightarrow> t = s0)" by blast
  then obtain s1 t where
    y: "sf_malloc cfg0 s0 big = Some (0, t)" "only_null_links_set cfg0 s0 s1"
      "(\<forall>c<NUM_FREE_LISTS cfg0. fl_head cfg0 c \<noteq> 0) \<longrightarrow> heads_linked cfg0 s1"
      "heap_start cfg0 = mem_end s0
         \<and> unat (heap_start cfg0) + unat (PAGE_SZ cfg0) \<le> unat (heap_limit cfg0)
         \<and> heap_start cfg0 \<noteq> 0 \<longrightarrow>
       t = snd (initializeHeap cfg0 s1) \<and> mem_end t = heap_start cfg0 + PAGE_SZ cfg0
       \<and> sf_errno t = sf_errno s0"
    by blast
  from y(3) nz have y3: "heads_linked cfg0 s1" by blast
  from y(4) e0 e1 have y4: "t = snd (initializeHeap cfg0 s1)"
    "mem_end t = heap_start cfg0 + PAGE_SZ cfg0" "sf_errno t = sf_errno s0" by blast+
  from y4 e2 have y5: "mem_end t = 66560" "sf_errno t = 0" by simp_all
  from y(1,2) y3 y4(1) y5
  have f1: "\<exists>s1 t. sf_malloc cfg0 s0 big = Some (0, t)
           \<and> only_null_links_set cfg0 s0 s1 \<and> heads_linked cfg0 s1
           \<and> t = snd (initializeHeap cfg0 s1) \<and> mem_end t = 66560 \<and> sf_errno t = 0"
    by blast
  have g0: "heap_start cfg1 = mem_end s0"
    "unat (heap_limit cfg1) < unat (heap_start cfg1) + unat (PAGE_SZ cfg1)"
    by (simp_all add: cfg0_def fresh_def cfg1_def s0_def)
  from sf_malloc_effective_size_rollover [of big cfg1 s0] d
  have x3: "\<exists>s1 t. sf_malloc cfg1 s0 big = Some (0, t)
           \<and> only_null_links_set cfg1 s0 s1
           \<and> ((\<forall>c<NUM_FREE_LISTS cfg1. fl_head cfg1 c \<noteq> 0) \<longrightarrow> heads_linked cfg1 s1)
           \<and> (heads_linked cfg1 s0 \<longrightarrow> s1 = s0)
           \<and> (heap_start cfg1 \<noteq> mem_end s0 \<longrightarrow> t = s1)
           \<and> (heap_start cfg1 = mem_end s0
                \<and> unat (heap_limit cfg1) < unat (heap_start cfg1) + unat (PAGE_SZ cfg1) \<longrightarrow>
                t = s1\<lparr>sf_errno := ENOMEM\<rparr>)
           \<and> (heap_start cfg1 = mem_end s0
                \<and> unat (heap_start cfg1) + unat (PAGE_SZ cfg1) \<le> unat (heap_limit cfg1)
                \<and> heap_start cfg1 \<noteq> 0 \<longrightarrow>
                t = snd (initializeHeap cfg1 s1) \<and> mem_end t = heap_start cfg1 + PAGE_SZ cfg1
                \<and> sf_errno t = sf_errno s0)
           \<and> ql_length t = ql_length s0 \<and> ql_first t = ql_first s0
           \<and> maxAggPayload t = maxAggPayload s0
           \<and> (heap_start cfg1 \<noteq> mem_end s0 \<and> heads_linked cfg1 s0 \<longrightarrow> t = s0)" by blast
  then obtain s1' t' where
    z: "sf_malloc cfg1 s0 big = Some (0, t')" "only_null_links_set cfg1 s0 s1'"
      "heap_start cfg1 = mem_end s0
         \<and> unat (heap_limit cfg1) < unat (heap_start cfg1) + unat (PAGE_SZ cfg1) \<longrightarrow>
       t' = s1'\<lparr>sf_errno := ENOMEM\<rparr>"
    by blast
  from z(3) g0 have z3: "t' = s1'\<lparr>sf_errno := ENOMEM\<rparr>" by blast
  from z(1,2) z3
  have f2: "\<exists>s1 t. sf_malloc cfg1 s0 big = Some (0, t)
           \<and> only_null_links_set cfg1 s0 s1 \<and> t = s1\<lparr>sf_errno := ENOMEM\<rparr>"
    by blast
  from a b c d m ne hl d1 f1 f2 show ?thesis
    unfolding big_def cfg1_def s0_def by blast
qed

end
